theory Spec2Isabelle
  imports Complex_Main "HOL-Library.Char_ord" "HOL-Library.List_Lexorder"
begin

section \<open>Position reconciliation: the engine of reconciliation_standalone.py\<close>

text \<open>
  The embedding follows \<^verbatim>\<open>calculate_severity\<close> and \<^verbatim>\<open>reconcile_positions\<close>.

  A number of a data frame, and every number the program computes from one, is a
  \<open>number\<close>: an integer or a floating-point number, each given by its value.  The
  operations of the program that round or wrap in the machine (\<^verbatim>\<open>-\<close>, \<^verbatim>\<open>/\<close>, \<^verbatim>\<open>*\<close>,
  unary minus, \<^verbatim>\<open>abs\<close> and \<^verbatim>\<open>round\<close>) are not interpreted: they are the fields of a
  record \<open>arith\<close> that the reconciliation takes as an argument, and what is proved about
  the reconciliation is proved for every such record, so for the arithmetic of the
  machine in particular.  The comparisons of the program are all with a constant
  (a tolerance, a threshold or zero); they are exact in the machine and are comparisons
  of values here.  Not-a-number and the infinities are not numbers of a frame in the
  model.

  The free-text \<^verbatim>\<open>details\<close> entry of a break is a rendering of values the break
  already holds and is left out of the record.  Console output is not modelled.
\<close>

subsection \<open>Enums and configuration\<close>

datatype BreakType =
  QUANTITY_MISMATCH | PRICE_MISMATCH | MARKET_VALUE_MISMATCH | MISSING_IN_SOURCE | MISSING_IN_TARGET

fun BreakType_value :: "BreakType \<Rightarrow> string" where
  "BreakType_value QUANTITY_MISMATCH = ''Quantity Mismatch''"
| "BreakType_value PRICE_MISMATCH = ''Price Mismatch''"
| "BreakType_value MARKET_VALUE_MISMATCH = ''Market Value Mismatch''"
| "BreakType_value MISSING_IN_SOURCE = ''Missing in Source''"
| "BreakType_value MISSING_IN_TARGET = ''Missing in Target''"

datatype Severity = CRITICAL | HIGH | MEDIUM | LOW

fun Severity_value :: "Severity \<Rightarrow> string" where
  "Severity_value CRITICAL = ''CRITICAL''"
| "Severity_value HIGH = ''HIGH''"
| "Severity_value MEDIUM = ''MEDIUM''"
| "Severity_value LOW = ''LOW''"

text \<open>
  The dictionary \<^verbatim>\<open>TOLERANCES\<close>; it is only ever read, with these four keys.  Its
  entries are the values of the literals: \<^verbatim>\<open>1.0\<close>, \<^verbatim>\<open>2.0\<close> and \<^verbatim>\<open>100\<close> are whole
  numbers, and \<^verbatim>\<open>0.1\<close> is the binary floating-point number nearest to one tenth,
  which is \<open>3602879701896397 / 2 ^ 55\<close>.
\<close>

record Tolerances =
  quantity_pct :: real
  price_pct :: real
  market_value_pct :: real
  min_threshold :: real

definition TOLERANCES :: Tolerances where
  "TOLERANCES = \<lparr>quantity_pct = 1.0, price_pct = 3602879701896397 / 2 ^ 55,
                  market_value_pct = 2.0, min_threshold = 100\<rparr>"

text \<open>
  \<^verbatim>\<open>severity_order\<close> of \<^verbatim>\<open>generate_report\<close>: the rank the program itself gives the
  tiers, the most severe first.
\<close>

fun severity_order :: "Severity \<Rightarrow> nat" where
  "severity_order CRITICAL = 0"
| "severity_order HIGH = 1"
| "severity_order MEDIUM = 2"
| "severity_order LOW = 3"

subsection \<open>The severity classifier\<close>

text \<open>
  The classifier takes the absolute values of its two arguments and compares them with
  whole-number constants; on floating-point arguments neither step rounds, so it is a
  function of the values of its arguments.
\<close>

definition calculate_severity :: "real \<Rightarrow> real \<Rightarrow> Severity" where
  "calculate_severity variance variance_pct =
     (let abs_var = \<bar>variance\<bar>;
          abs_pct = \<bar>variance_pct\<bar>
      in if abs_var > 100000 \<or> abs_pct > 10 then CRITICAL
         else if abs_var > 50000 \<or> abs_pct > 5 then HIGH
         else if abs_var > 10000 \<or> abs_pct > 2 then MEDIUM
         else LOW)"

subsection \<open>Numbers and their arithmetic\<close>

text \<open>
  A number: an integer (a cell of an integer column, or an integer literal of the
  program such as \<^verbatim>\<open>0\<close> and \<^verbatim>\<open>100\<close>) or a floating-point number (a cell of a
  floating-point column, or a literal such as \<^verbatim>\<open>100.0\<close>), with its value.
\<close>

datatype number = IntNum int | FloatNum real

fun val :: "number \<Rightarrow> real" where
  "val (IntNum i) = of_int i"
| "val (FloatNum x) = x"

text \<open>
  The operations whose result the machine rounds to the nearest floating-point number,
  or wraps around in a 64-bit integer: \<^verbatim>\<open>a - b\<close>, \<^verbatim>\<open>a / b\<close> for a divisor other than
  zero, \<^verbatim>\<open>a * b\<close>, \<^verbatim>\<open>-a\<close>, \<^verbatim>\<open>abs(a)\<close> and \<^verbatim>\<open>round(a, n)\<close>.  Nothing is assumed
  of them here.
\<close>

record arith =
  op_sub :: "number \<Rightarrow> number \<Rightarrow> number"
  op_truediv :: "number \<Rightarrow> number \<Rightarrow> number"
  op_mul :: "number \<Rightarrow> number \<Rightarrow> number"
  op_neg :: "number \<Rightarrow> number"
  op_abs :: "number \<Rightarrow> number"
  op_round :: "number \<Rightarrow> nat \<Rightarrow> number"

subsection \<open>Data frames, breaks and errors\<close>

record Position =
  symbol :: string
  account_id :: string
  quantity :: number
  price :: number
  market_value :: number
  currency :: string
  trade_date :: string
  settle_date :: string

text \<open>
  A data frame is its rows together with the column \<^verbatim>\<open>pos_key\<close>, which the position
  files do not have (\<open>None\<close>) and which the reconciliation writes.
\<close>

record DataFrame =
  rows :: "Position list"
  pos_key :: "string list option"

text \<open>
  One entry of the list \<^verbatim>\<open>breaks\<close>.  The dictionary keys \<^verbatim>\<open>symbol\<close> and
  \<^verbatim>\<open>account_id\<close> are prefixed, since a position has fields of the same names.
\<close>

record Break =
  break_id :: string
  break_type :: string
  severity :: string
  brk_symbol :: string
  brk_account_id :: string
  internal_value :: number
  pb_value :: number
  variance :: number
  variance_pct :: number

datatype error = ZeroDivisionError | IndexError | KeyError

subsection \<open>Division and formatting primitives\<close>

text \<open>
  Python's \<^verbatim>\<open>/\<close>: a zero divisor raises, any other divisor gives the quotient as the
  machine computes it.  (On the scalars of a numeric column a zero divisor gives an
  infinity or not-a-number under a warning instead; the model takes the exception, the
  stricter of the two.)
\<close>

definition truediv :: "arith \<Rightarrow> number \<Rightarrow> number \<Rightarrow> error + number" where
  "truediv ar a b = (if val b = 0 then Inl ZeroDivisionError else Inr (op_truediv ar a b))"

text \<open>The decimal digits of a natural number, and the format \<^verbatim>\<open>f"BRK-{n:04d}"\<close>:
  zeros are added on the left up to a width of four, and no digit is ever dropped.\<close>

definition digit_char :: "nat \<Rightarrow> char" where
  "digit_char d = char_of (48 + d)"

fun decimal :: "nat \<Rightarrow> string" where
  "decimal n = (if n < 10 then [digit_char n] else decimal (n div 10) @ [digit_char (n mod 10)])"

declare decimal.simps [simp del]

definition format_04d :: "nat \<Rightarrow> string" where
  "format_04d n = replicate (4 - length (decimal n)) CHR ''0'' @ decimal n"

definition format_break_id :: "nat \<Rightarrow> string" where
  "format_break_id n = ''BRK-'' @ format_04d n"

subsection \<open>Data frame operations used by the reconciliation\<close>

text \<open>\<^verbatim>\<open>df['symbol'] + '|' + df['account_id']\<close>, row by row.\<close>

definition make_pos_key :: "Position \<Rightarrow> string" where
  "make_pos_key p = symbol p @ ''|'' @ account_id p"

text \<open>\<^verbatim>\<open>df['pos_key'] = ...\<close>: the column is written into the frame that was passed in.\<close>

definition assign_pos_key :: "DataFrame \<Rightarrow> DataFrame" where
  "assign_pos_key df = df\<lparr>pos_key := Some (map make_pos_key (rows df))\<rparr>"

text \<open>\<^verbatim>\<open>df['pos_key']\<close>: reading a column that is absent raises.\<close>

definition col_pos_key :: "DataFrame \<Rightarrow> error + string list" where
  "col_pos_key df = (case pos_key df of None \<Rightarrow> Inl KeyError | Some ks \<Rightarrow> Inr ks)"

text \<open>\<^verbatim>\<open>.iloc[0]\<close>: the first row of a selection, an error on an empty one.\<close>

definition iloc0 :: "'a list \<Rightarrow> error + 'a" where
  "iloc0 xs = (case xs of [] \<Rightarrow> Inl IndexError | x # _ \<Rightarrow> Inr x)"

text \<open>\<^verbatim>\<open>df[df['pos_key'] == key].iloc[0]\<close>.\<close>

definition select_first :: "DataFrame \<Rightarrow> string \<Rightarrow> error + Position" where
  "select_first df key =
     (case col_pos_key df of
        Inl e \<Rightarrow> Inl e
      | Inr ks \<Rightarrow> iloc0 (map snd (filter (\<lambda>(k, p). k = key) (zip ks (rows df)))))"

subsection \<open>Loops and the guarded percentage\<close>

text \<open>
  \<^verbatim>\<open>for x in xs: body\<close> over a state: the body runs once per element, in order, and
  an exception raised by the body ends the loop.
\<close>

fun for_each :: "('a \<Rightarrow> 's \<Rightarrow> error + 's) \<Rightarrow> 'a list \<Rightarrow> 's \<Rightarrow> error + 's" where
  "for_each body [] s = Inr s"
| "for_each body (x # xs) s =
     (case body x s of Inl e \<Rightarrow> Inl e | Inr s' \<Rightarrow> for_each body xs s')"

text \<open>
  The statement that the program writes three times, for quantity, price and market
  value: \<^verbatim>\<open>if d != 0: pct = (var / d) * 100 else: pct = 0\<close>.
\<close>

definition guarded_pct :: "arith \<Rightarrow> number \<Rightarrow> number \<Rightarrow> error + number" where
  "guarded_pct ar var d =
     (if val d \<noteq> 0
      then (case truediv ar var d of Inl e \<Rightarrow> Inl e | Inr q \<Rightarrow> Inr (op_mul ar q (IntNum 100)))
      else Inr (IntNum 0))"

subsection \<open>The bodies of the three loops of reconcile_positions\<close>

definition missing_in_target_body :: "DataFrame \<Rightarrow> string \<Rightarrow> Break list \<Rightarrow> error + Break list" where
  "missing_in_target_body internal_df key breaks =
     (case select_first internal_df key of
        Inl e \<Rightarrow> Inl e
      | Inr pos \<Rightarrow>
          Inr (breaks @
             [\<lparr>break_id = format_break_id (length breaks + 1),
               break_type = BreakType_value MISSING_IN_TARGET,
               severity = Severity_value (calculate_severity (val (market_value pos)) (val (IntNum 100))),
               brk_symbol = symbol pos,
               brk_account_id = account_id pos,
               internal_value = market_value pos,
               pb_value = IntNum 0,
               variance = market_value pos,
               variance_pct = FloatNum 100.0\<rparr>]))"

definition missing_in_source_body ::
  "arith \<Rightarrow> DataFrame \<Rightarrow> string \<Rightarrow> Break list \<Rightarrow> error + Break list" where
  "missing_in_source_body ar pb_df key breaks =
     (case select_first pb_df key of
        Inl e \<Rightarrow> Inl e
      | Inr pos \<Rightarrow>
          Inr (breaks @
             [\<lparr>break_id = format_break_id (length breaks + 1),
               break_type = BreakType_value MISSING_IN_SOURCE,
               severity = Severity_value (calculate_severity (val (market_value pos)) (val (IntNum 100))),
               brk_symbol = symbol pos,
               brk_account_id = account_id pos,
               internal_value = IntNum 0,
               pb_value = market_value pos,
               variance = op_neg ar (market_value pos),
               variance_pct = FloatNum (- 100.0)\<rparr>]))"

text \<open>The body of the loop over the common keys, one definition per check.\<close>

definition check_quantity ::
  "arith \<Rightarrow> Position \<Rightarrow> Position \<Rightarrow> Break list \<Rightarrow> error + Break list" where
  "check_quantity ar int_pos pb_pos breaks =
     (let qty_var = op_sub ar (quantity int_pos) (quantity pb_pos)
      in case guarded_pct ar qty_var (quantity int_pos) of
           Inl e \<Rightarrow> Inl e
         | Inr qty_var_pct \<Rightarrow>
             if val (op_abs ar qty_var_pct) > quantity_pct TOLERANCES then
               (let dollar_impact = op_abs ar (op_mul ar qty_var (price int_pos))
                in Inr (breaks @
                   [\<lparr>break_id = format_break_id (length breaks + 1),
                     break_type = BreakType_value QUANTITY_MISMATCH,
                     severity = Severity_value
                       (calculate_severity (val dollar_impact) (val qty_var_pct)),
                     brk_symbol = symbol int_pos,
                     brk_account_id = account_id int_pos,
                     internal_value = quantity int_pos,
                     pb_value = quantity pb_pos,
                     variance = qty_var,
                     variance_pct = op_round ar qty_var_pct 2\<rparr>]))
             else Inr breaks)"

definition check_price ::
  "arith \<Rightarrow> Position \<Rightarrow> Position \<Rightarrow> Break list \<Rightarrow> error + Break list" where
  "check_price ar int_pos pb_pos breaks =
     (let price_var = op_sub ar (price int_pos) (price pb_pos)
      in case guarded_pct ar price_var (price int_pos) of
           Inl e \<Rightarrow> Inl e
         | Inr price_var_pct \<Rightarrow>
             if val (op_abs ar price_var_pct) > price_pct TOLERANCES then
               (let dollar_impact = op_abs ar (op_mul ar price_var (quantity int_pos))
                in Inr (breaks @
                   [\<lparr>break_id = format_break_id (length breaks + 1),
                     break_type = BreakType_value PRICE_MISMATCH,
                     severity = Severity_value
                       (calculate_severity (val dollar_impact) (val price_var_pct)),
                     brk_symbol = symbol int_pos,
                     brk_account_id = account_id int_pos,
                     internal_value = price int_pos,
                     pb_value = price pb_pos,
                     variance = op_round ar price_var 2,
                     variance_pct = op_round ar price_var_pct 2\<rparr>]))
             else Inr breaks)"

definition check_market_value ::
  "arith \<Rightarrow> Position \<Rightarrow> Position \<Rightarrow> Break list \<Rightarrow> error + Break list" where
  "check_market_value ar int_pos pb_pos breaks =
     (let mv_var = op_sub ar (market_value int_pos) (market_value pb_pos)
      in case guarded_pct ar mv_var (market_value int_pos) of
           Inl e \<Rightarrow> Inl e
         | Inr mv_var_pct \<Rightarrow>
             if val (op_abs ar mv_var_pct) > market_value_pct TOLERANCES
                \<and> val (op_abs ar mv_var) > min_threshold TOLERANCES then
               Inr (breaks @
                 [\<lparr>break_id = format_break_id (length breaks + 1),
                   break_type = BreakType_value MARKET_VALUE_MISMATCH,
                   severity = Severity_value (calculate_severity (val mv_var) (val mv_var_pct)),
                   brk_symbol = symbol int_pos,
                   brk_account_id = account_id int_pos,
                   internal_value = market_value int_pos,
                   pb_value = market_value pb_pos,
                   variance = op_round ar mv_var 2,
                   variance_pct = op_round ar mv_var_pct 2\<rparr>])
             else Inr breaks)"

definition compare_body ::
  "arith \<Rightarrow> DataFrame \<Rightarrow> DataFrame \<Rightarrow> string \<Rightarrow> Break list \<Rightarrow> error + Break list" where
  "compare_body ar internal_df pb_df key breaks =
     (case select_first internal_df key of
        Inl e \<Rightarrow> Inl e
      | Inr int_pos \<Rightarrow>
     (case select_first pb_df key of
        Inl e \<Rightarrow> Inl e
      | Inr pb_pos \<Rightarrow>
     (case check_quantity ar int_pos pb_pos breaks of
        Inl e \<Rightarrow> Inl e
      | Inr breaks1 \<Rightarrow>
     (case check_price ar int_pos pb_pos breaks1 of
        Inl e \<Rightarrow> Inl e
      | Inr breaks2 \<Rightarrow> check_market_value ar int_pos pb_pos breaks2))))"

subsection \<open>reconcile_positions\<close>

text \<open>
  Python iterates over the three key sets in an order the program does not choose.  The
  order is the parameter \<open>iter\<close>: any function that lists each finite set once.
  The result holds the two frames as the call leaves them, and the returned list or the
  exception raised.
\<close>

definition set_iteration :: "(string set \<Rightarrow> string list) \<Rightarrow> bool" where
  "set_iteration iter \<longleftrightarrow> (\<forall>S. finite S \<longrightarrow> set (iter S) = S \<and> distinct (iter S))"

definition reconcile_positions ::
  "arith \<Rightarrow> (string set \<Rightarrow> string list) \<Rightarrow> DataFrame \<Rightarrow> DataFrame
     \<Rightarrow> DataFrame \<times> DataFrame \<times> (error + Break list)" where
  "reconcile_positions ar iter internal_df0 pb_df0 =
     (let breaks = [];
          internal_df = assign_pos_key internal_df0;
          pb_df = assign_pos_key pb_df0
      in (internal_df, pb_df,
          case col_pos_key internal_df of
            Inl e \<Rightarrow> Inl e
          | Inr internal_col \<Rightarrow>
          (case col_pos_key pb_df of
            Inl e \<Rightarrow> Inl e
          | Inr pb_col \<Rightarrow>
          (let internal_keys = set internal_col;
               pb_keys = set pb_col;
               missing_in_pb = internal_keys - pb_keys;
               missing_in_internal = pb_keys - internal_keys
           in case for_each (missing_in_target_body internal_df) (iter missing_in_pb) breaks of
                Inl e \<Rightarrow> Inl e
              | Inr breaks1 \<Rightarrow>
              (case for_each (missing_in_source_body ar pb_df) (iter missing_in_internal) breaks1 of
                Inl e \<Rightarrow> Inl e
              | Inr breaks2 \<Rightarrow>
              (let common_keys = internal_keys \<inter> pb_keys
               in for_each (compare_body ar internal_df pb_df) (iter common_keys) breaks2))))))"

text \<open>The key under which a break was raised, read back from its two name fields.\<close>

definition brk_key :: "Break \<Rightarrow> string" where
  "brk_key b = brk_symbol b @ ''|'' @ brk_account_id b"

text \<open>The list of breaks that a run returns, empty when the run raised.\<close>

definition returned :: "DataFrame \<times> DataFrame \<times> (error + Break list) \<Rightarrow> Break list" where
  "returned r = (case snd (snd r) of Inl e \<Rightarrow> [] | Inr breaks \<Rightarrow> breaks)"

subsection \<open>What the statement on identical positions assumes of the arithmetic\<close>

text \<open>
  An arithmetic is exact at zero when a number minus itself is zero, zero divided by a
  number other than zero is zero, zero times 100 is zero, and the absolute value of
  zero is zero.  Floating-point arithmetic and 64-bit integer arithmetic are exact at
  zero.
\<close>

definition zero_exact :: "arith \<Rightarrow> bool" where
  "zero_exact ar \<longleftrightarrow>
     (\<forall>x. val (op_sub ar x x) = 0) \<and>
     (\<forall>z d. val z = 0 \<longrightarrow> val d \<noteq> 0 \<longrightarrow> val (op_truediv ar z d) = 0) \<and>
     (\<forall>z. val z = 0 \<longrightarrow> val (op_mul ar z (IntNum 100)) = 0) \<and>
     (\<forall>z. val z = 0 \<longrightarrow> val (op_abs ar z) = 0)"

subsection \<open>Reading identifiers back, and the first row of every key\<close>

text \<open>The number that a string of decimal digits denotes.\<close>

definition decimal_value :: "string \<Rightarrow> nat" where
  "decimal_value s = foldl (\<lambda>a c. 10 * a + (of_char c - 48)) 0 s"

text \<open>A list of breaks whose identifiers count up from 1 in the order of the list.\<close>

definition numbered :: "Break list \<Rightarrow> bool" where
  "numbered bs \<longleftrightarrow> map break_id bs = map format_break_id [1..<length bs + 1]"

text \<open>
  The rows of a frame that the lookup \<open>select_first\<close> can return: of the rows with
  one key, the first.
\<close>

fun first_rows :: "Position list \<Rightarrow> Position list" where
  "first_rows [] = []"
| "first_rows (p # ps) = p # filter (\<lambda>q. make_pos_key q \<noteq> make_pos_key p) (first_rows ps)"

subsection \<open>Rows, frames and an arithmetic for the worked examples\<close>

definition position :: "string \<Rightarrow> string \<Rightarrow> number \<Rightarrow> number \<Rightarrow> number \<Rightarrow> Position" where
  "position smb acct qty px mv =
     \<lparr>symbol = smb, account_id = acct, quantity = qty, price = px, market_value = mv,
      currency = ''USD'', trade_date = ''2024-01-02'', settle_date = ''2024-01-04''\<rparr>"

definition data_frame :: "Position list \<Rightarrow> DataFrame" where
  "data_frame ps = \<lparr>rows = ps, pos_key = None\<rparr>"

text \<open>The row number \<open>n\<close> of a frame whose rows all have different keys.\<close>

definition numbered_position :: "nat \<Rightarrow> Position" where
  "numbered_position n = position (''S'' @ decimal n) ''ACC'' (IntNum 1) (FloatNum 1) (FloatNum 1)"

text \<open>
  The worked examples run with an arithmetic that does not round: integers stay
  integers under \<^verbatim>\<open>-\<close>, \<^verbatim>\<open>*\<close>, unary minus and \<^verbatim>\<open>abs\<close>, and every other result is the
  exact one.  The numbers of the examples are chosen so that the machine does the same
  on them: every operand and every result is a whole number of halves, far below
  \<open>2 ^ 53\<close>, and is therefore computed without rounding.
\<close>

definition round_half_even :: "real \<Rightarrow> int" where
  "round_half_even y =
     (let f = \<lfloor>y\<rfloor>; d = y - of_int f
      in if d < 1 / 2 then f else if d > 1 / 2 then f + 1 else if even f then f else f + 1)"

fun exact_sub :: "number \<Rightarrow> number \<Rightarrow> number" where
  "exact_sub (IntNum i) (IntNum j) = IntNum (i - j)"
| "exact_sub (IntNum i) (FloatNum y) = FloatNum (of_int i - y)"
| "exact_sub (FloatNum x) b = FloatNum (x - val b)"

fun exact_mul :: "number \<Rightarrow> number \<Rightarrow> number" where
  "exact_mul (IntNum i) (IntNum j) = IntNum (i * j)"
| "exact_mul (IntNum i) (FloatNum y) = FloatNum (of_int i * y)"
| "exact_mul (FloatNum x) b = FloatNum (x * val b)"

fun exact_neg :: "number \<Rightarrow> number" where
  "exact_neg (IntNum i) = IntNum (- i)"
| "exact_neg (FloatNum x) = FloatNum (- x)"

fun exact_abs :: "number \<Rightarrow> number" where
  "exact_abs (IntNum i) = IntNum \<bar>i\<bar>"
| "exact_abs (FloatNum x) = FloatNum \<bar>x\<bar>"

fun exact_round :: "number \<Rightarrow> nat \<Rightarrow> number" where
  "exact_round (IntNum i) n = IntNum i"
| "exact_round (FloatNum x) n = FloatNum (of_int (round_half_even (x * 10 ^ n)) / 10 ^ n)"

definition exact_arith :: arith where
  "exact_arith =
     \<lparr>op_sub = exact_sub,
      op_truediv = (\<lambda>a b. FloatNum (val a / val b)),
      op_mul = exact_mul,
      op_neg = exact_neg,
      op_abs = exact_abs,
      op_round = exact_round\<rparr>"

section \<open>Facts about the lookups, the loops and the loop bodies\<close>

lemma select_first_assign:
  "select_first (assign_pos_key df) key = iloc0 (filter (\<lambda>p. make_pos_key p = key) (rows df))"
proof -
  have "map snd (filter (\<lambda>(k, p). k = key) (zip (map f xs) xs)) = filter (\<lambda>p. f p = key) xs" for f :: "Position \<Rightarrow> string" and xs
    by (induction xs) auto
  then show ?thesis
    by (simp add: select_first_def assign_pos_key_def col_pos_key_def)
qed

lemma iloc0_filter_find:
  "iloc0 (filter P xs) = (case find P xs of None \<Rightarrow> Inl IndexError | Some x \<Rightarrow> Inr x)"
  by (induction xs) (auto simp: iloc0_def)

lemma select_first_find:
  "select_first (assign_pos_key df) key =
     (case find (\<lambda>p. make_pos_key p = key) (rows df) of None \<Rightarrow> Inl IndexError | Some x \<Rightarrow> Inr x)"
  by (simp add: select_first_assign iloc0_filter_find)

lemma find_key_present:
  "key \<in> set (map make_pos_key (rows df)) \<Longrightarrow>
     \<exists>pos. find (\<lambda>p. make_pos_key p = key) (rows df) = Some pos"
  by (cases "find (\<lambda>p. make_pos_key p = key) (rows df)") (auto simp: find_None_iff)

lemma find_key_Some:
  "find (\<lambda>p. make_pos_key p = key) xs = Some pos \<Longrightarrow> make_pos_key pos = key \<and> pos \<in> set xs"
  by (auto simp: find_Some_iff)

lemma guarded_pct_value:
  "guarded_pct ar v d =
     Inr (if val d \<noteq> 0 then op_mul ar (op_truediv ar v d) (IntNum 100) else IntNum 0)"
  by (simp add: guarded_pct_def truediv_def)

lemma for_each_append:
  assumes "\<forall>k\<in>set keys. \<forall>bs. \<exists>ext. body k bs = Inr (bs @ ext)"
  shows "\<exists>rest. for_each body keys bs = Inr (bs @ rest)"
  using assms
proof (induction keys arbitrary: bs)
  case Nil
  then show ?case by simp
next
  case (Cons k keys)
  from Cons.prems have "\<exists>ext. body k bs = Inr (bs @ ext)" by simp
  then obtain ext where e: "body k bs = Inr (bs @ ext)" by blast
  have "\<forall>k\<in>set keys. \<forall>bs. \<exists>ext. body k bs = Inr (bs @ ext)" using Cons.prems by simp
  from Cons.IH [OF this, of "bs @ ext"]
  obtain rest where "for_each body keys (bs @ ext) = Inr ((bs @ ext) @ rest)" by auto
  with e show ?case by simp
qed

lemma for_each_invariant:
  assumes step: "\<And>k bs bs'. k \<in> set keys \<Longrightarrow> Inv bs \<Longrightarrow> body k bs = Inr bs' \<Longrightarrow> Inv bs'"
    and "Inv bs" and "for_each body keys bs = Inr bs'"
  shows "Inv bs'"
  using assms
proof (induction keys arbitrary: bs)
  case Nil
  from Nil(3) have "bs = bs'" by simp
  with Nil(2) show ?case by (rule subst [rotated])
next
  case (Cons k keys)
  from Cons.prems(3) obtain mid where m: "body k bs = Inr mid" and r: "for_each body keys mid = Inr bs'"
    by (cases "body k bs") simp_all
  have km: "k \<in> set (k # keys)" by (rule list.set_intros(1))
  have "Inv mid" by (rule Cons.prems(1) [OF km Cons.prems(2) m])
  show ?case
  proof (rule Cons.IH [OF _ \<open>Inv mid\<close> r])
    fix k' bs1 bs2
    assume a: "k' \<in> set keys" and b: "Inv bs1" and c: "body k' bs1 = Inr bs2"
    have "k' \<in> set (k # keys)" using a by (rule list.set_intros(2))
    then show "Inv bs2" using b c by (rule Cons.prems(1))
  qed
qed

lemma for_each_weaken:
  assumes "\<forall>k\<in>set keys. \<forall>bs. \<exists>ext. body k bs = Inr (bs @ ext) \<and> (\<forall>b\<in>set ext. key_of b = k)"
  shows "\<forall>k\<in>set keys. \<forall>bs. \<exists>ext. body k bs = Inr (bs @ ext)"
  using assms by blast

lemma for_each_key_absent:
  assumes "\<forall>k\<in>set keys. \<forall>bs. \<exists>ext. body k bs = Inr (bs @ ext) \<and> (\<forall>b\<in>set ext. key_of b = k)"
    and "k \<notin> set keys" and "for_each body keys bs = Inr (bs @ rest)"
  shows "filter (\<lambda>b. key_of b = k) rest = []"
  using assms
proof (induction keys arbitrary: bs rest)
  case Nil
  then show ?case by simp
next
  case (Cons k' keys)
  from Cons.prems(1)
  have "\<exists>ext. body k' bs = Inr (bs @ ext) \<and> (\<forall>b\<in>set ext. key_of b = k')" by simp
  then obtain ext where
    e: "body k' bs = Inr (bs @ ext)" and ke: "\<forall>b\<in>set ext. key_of b = k'" by blast
  have step: "\<forall>k\<in>set keys. \<forall>bs. \<exists>ext. body k bs = Inr (bs @ ext) \<and> (\<forall>b\<in>set ext. key_of b = k)"
    using Cons.prems(1) by simp
  from for_each_append [OF for_each_weaken [OF step], of "bs @ ext"]
  obtain rest' where r': "for_each body keys (bs @ ext) = Inr ((bs @ ext) @ rest')" by auto
  with e Cons.prems(3) have rest: "rest = ext @ rest'" by simp
  have "k \<notin> set keys" using Cons.prems(2) by simp
  from Cons.IH [OF step this r'] have "filter (\<lambda>b. key_of b = k) rest' = []" .
  moreover have "filter (\<lambda>b. key_of b = k) ext = []"
    using ke Cons.prems(2) by (auto simp: filter_empty_conv)
  ultimately show ?case by (simp add: rest)
qed

lemma for_each_key_present:
  assumes "\<forall>k\<in>set keys. \<forall>bs. \<exists>ext. body k bs = Inr (bs @ ext) \<and> (\<forall>b\<in>set ext. key_of b = k)"
    and "distinct keys" and "k \<in> set keys" and "for_each body keys bs = Inr (bs @ rest)"
  shows "\<exists>pre. body k pre = Inr (pre @ filter (\<lambda>b. key_of b = k) rest)"
  using assms
proof (induction keys arbitrary: bs rest)
  case Nil
  then show ?case by simp
next
  case (Cons k' keys)
  from Cons.prems(1)
  have "\<exists>ext. body k' bs = Inr (bs @ ext) \<and> (\<forall>b\<in>set ext. key_of b = k')" by simp
  then obtain ext where
    e: "body k' bs = Inr (bs @ ext)" and ke: "\<forall>b\<in>set ext. key_of b = k'" by blast
  have step: "\<forall>k\<in>set keys. \<forall>bs. \<exists>ext. body k bs = Inr (bs @ ext) \<and> (\<forall>b\<in>set ext. key_of b = k)"
    using Cons.prems(1) by simp
  from for_each_append [OF for_each_weaken [OF step], of "bs @ ext"]
  obtain rest' where r': "for_each body keys (bs @ ext) = Inr ((bs @ ext) @ rest')" by auto
  with e Cons.prems(4) have rest: "rest = ext @ rest'" by simp
  have d: "distinct keys" using Cons.prems(2) by simp
  show ?case
  proof (cases "k = k'")
    case True
    then have "k \<notin> set keys" using Cons.prems(2) by simp
    from for_each_key_absent [OF step this r']
    have "filter (\<lambda>b. key_of b = k) rest' = []" .
    moreover have "filter (\<lambda>b. key_of b = k) ext = ext"
      using ke True by (simp add: filter_id_conv)
    ultimately have "filter (\<lambda>b. key_of b = k) rest = ext" by (simp add: rest)
    with e True show ?thesis by auto
  next
    case False
    then have "k \<in> set keys" using Cons.prems(3) by simp
    from Cons.IH [OF step d this r']
    obtain pre where p: "body k pre = Inr (pre @ filter (\<lambda>b. key_of b = k) rest')" by auto
    have "filter (\<lambda>b. key_of b = k) ext = []"
      using ke False by (auto simp: filter_empty_conv)
    then have "filter (\<lambda>b. key_of b = k) rest = filter (\<lambda>b. key_of b = k) rest'"
      by (simp add: rest)
    with p show ?thesis by auto
  qed
qed

lemma missing_in_target_body_result:
  assumes "find (\<lambda>p. make_pos_key p = k) (rows df) = Some pos"
  shows "missing_in_target_body (assign_pos_key df) k bs =
     Inr (bs @ [\<lparr>break_id = format_break_id (length bs + 1),
                 break_type = ''Missing in Target'',
                 severity = ''CRITICAL'',
                 brk_symbol = symbol pos,
                 brk_account_id = account_id pos,
                 internal_value = market_value pos,
                 pb_value = IntNum 0,
                 variance = market_value pos,
                 variance_pct = FloatNum 100\<rparr>])"
  using assms
  by (simp add: missing_in_target_body_def select_first_find calculate_severity_def)

lemma missing_in_source_body_result:
  assumes "find (\<lambda>p. make_pos_key p = k) (rows df) = Some pos"
  shows "missing_in_source_body ar (assign_pos_key df) k bs =
     Inr (bs @ [\<lparr>break_id = format_break_id (length bs + 1),
                 break_type = ''Missing in Source'',
                 severity = ''CRITICAL'',
                 brk_symbol = symbol pos,
                 brk_account_id = account_id pos,
                 internal_value = IntNum 0,
                 pb_value = market_value pos,
                 variance = op_neg ar (market_value pos),
                 variance_pct = FloatNum (- 100)\<rparr>])"
  using assms
  by (simp add: missing_in_source_body_def select_first_find calculate_severity_def)

lemma check_quantity_result:
  "check_quantity ar s t bs =
     Inr (bs @
       (if val (op_abs ar (if val (quantity s) \<noteq> 0
                  then op_mul ar (op_truediv ar (op_sub ar (quantity s) (quantity t)) (quantity s)) (IntNum 100)
                  else IntNum 0)) > 1
        then [\<lparr>break_id = format_break_id (length bs + 1),
               break_type = ''Quantity Mismatch'',
               severity = Severity_value (calculate_severity
                 (val (op_abs ar (op_mul ar (op_sub ar (quantity s) (quantity t)) (price s))))
                 (val (if val (quantity s) \<noteq> 0
                  then op_mul ar (op_truediv ar (op_sub ar (quantity s) (quantity t)) (quantity s)) (IntNum 100)
                  else IntNum 0))),
               brk_symbol = symbol s,
               brk_account_id = account_id s,
               internal_value = quantity s,
               pb_value = quantity t,
               variance = op_sub ar (quantity s) (quantity t),
               variance_pct = op_round ar (if val (quantity s) \<noteq> 0
                  then op_mul ar (op_truediv ar (op_sub ar (quantity s) (quantity t)) (quantity s)) (IntNum 100)
                  else IntNum 0) 2\<rparr>]
        else []))"
  by (simp add: check_quantity_def guarded_pct_value TOLERANCES_def Let_def)

lemma check_price_result:
  "check_price ar s t bs =
     Inr (bs @
       (if val (op_abs ar (if val (price s) \<noteq> 0
                  then op_mul ar (op_truediv ar (op_sub ar (price s) (price t)) (price s)) (IntNum 100)
                  else IntNum 0)) > 3602879701896397 / 2 ^ 55
        then [\<lparr>break_id = format_break_id (length bs + 1),
               break_type = ''Price Mismatch'',
               severity = Severity_value (calculate_severity
                 (val (op_abs ar (op_mul ar (op_sub ar (price s) (price t)) (quantity s))))
                 (val (if val (price s) \<noteq> 0
                  then op_mul ar (op_truediv ar (op_sub ar (price s) (price t)) (price s)) (IntNum 100)
                  else IntNum 0))),
               brk_symbol = symbol s,
               brk_account_id = account_id s,
               internal_value = price s,
               pb_value = price t,
               variance = op_round ar (op_sub ar (price s) (price t)) 2,
               variance_pct = op_round ar (if val (price s) \<noteq> 0
                  then op_mul ar (op_truediv ar (op_sub ar (price s) (price t)) (price s)) (IntNum 100)
                  else IntNum 0) 2\<rparr>]
        else []))"
  by (simp add: check_price_def guarded_pct_value TOLERANCES_def Let_def)

lemma check_market_value_result:
  "check_market_value ar s t bs =
     Inr (bs @
       (if val (op_abs ar (if val (market_value s) \<noteq> 0
                  then op_mul ar (op_truediv ar (op_sub ar (market_value s) (market_value t)) (market_value s)) (IntNum 100)
                  else IntNum 0)) > 2
           \<and> val (op_abs ar (op_sub ar (market_value s) (market_value t))) > 100
        then [\<lparr>break_id = format_break_id (length bs + 1),
               break_type = ''Market Value Mismatch'',
               severity = Severity_value (calculate_severity
                 (val (op_sub ar (market_value s) (market_value t)))
                 (val (if val (market_value s) \<noteq> 0
                  then op_mul ar (op_truediv ar (op_sub ar (market_value s) (market_value t)) (market_value s)) (IntNum 100)
                  else IntNum 0))),
               brk_symbol = symbol s,
               brk_account_id = account_id s,
               internal_value = market_value s,
               pb_value = market_value t,
               variance = op_round ar (op_sub ar (market_value s) (market_value t)) 2,
               variance_pct = op_round ar (if val (market_value s) \<noteq> 0
                  then op_mul ar (op_truediv ar (op_sub ar (market_value s) (market_value t)) (market_value s)) (IntNum 100)
                  else IntNum 0) 2\<rparr>]
        else []))"
  by (simp add: check_market_value_def guarded_pct_value TOLERANCES_def Let_def)

lemma compare_body_result:
  assumes "find (\<lambda>p. make_pos_key p = k) (rows idf) = Some s"
    and "find (\<lambda>p. make_pos_key p = k) (rows pdf) = Some t"
  shows "\<exists>q p m. check_quantity ar s t bs = Inr (bs @ q) \<and>
                  check_price ar s t (bs @ q) = Inr ((bs @ q) @ p) \<and>
                  check_market_value ar s t ((bs @ q) @ p) = Inr (((bs @ q) @ p) @ m) \<and>
                  compare_body ar (assign_pos_key idf) (assign_pos_key pdf) k bs = Inr (bs @ q @ p @ m)"
proof -
  obtain q where q: "check_quantity ar s t bs = Inr (bs @ q)"
    using check_quantity_result by blast
  obtain p where p: "check_price ar s t (bs @ q) = Inr ((bs @ q) @ p)"
    using check_price_result by blast
  obtain m where m: "check_market_value ar s t ((bs @ q) @ p) = Inr (((bs @ q) @ p) @ m)"
    using check_market_value_result by blast
  have "compare_body ar (assign_pos_key idf) (assign_pos_key pdf) k bs = Inr (bs @ q @ p @ m)"
    using assms q p m by (simp add: compare_body_def select_first_find)
  with q p m show ?thesis by blast
qed

lemma brk_key_make_pos_key [simp]:
  "brk_key \<lparr>break_id = i, break_type = ty, severity = sv, brk_symbol = symbol pos,
            brk_account_id = account_id pos, internal_value = a, pb_value = b,
            variance = c, variance_pct = d\<rparr> = make_pos_key pos"
  by (simp add: brk_key_def make_pos_key_def)

lemma target_step:
  "\<forall>k\<in>set (map make_pos_key (rows df)). \<forall>bs. \<exists>ext.
      missing_in_target_body (assign_pos_key df) k bs = Inr (bs @ ext) \<and>
      (\<forall>b\<in>set ext. brk_key b = k)"
proof (intro ballI allI)
  fix k bs assume "k \<in> set (map make_pos_key (rows df))"
  then obtain pos where f: "find (\<lambda>p. make_pos_key p = k) (rows df) = Some pos"
    using find_key_present by blast
  then have "make_pos_key pos = k" using find_key_Some by blast
  then show "\<exists>ext. missing_in_target_body (assign_pos_key df) k bs = Inr (bs @ ext) \<and>
      (\<forall>b\<in>set ext. brk_key b = k)"
    using missing_in_target_body_result [OF f, of bs] by simp
qed

lemma source_step:
  "\<forall>k\<in>set (map make_pos_key (rows df)). \<forall>bs. \<exists>ext.
      missing_in_source_body ar (assign_pos_key df) k bs = Inr (bs @ ext) \<and>
      (\<forall>b\<in>set ext. brk_key b = k)"
proof (intro ballI allI)
  fix k bs assume "k \<in> set (map make_pos_key (rows df))"
  then obtain pos where f: "find (\<lambda>p. make_pos_key p = k) (rows df) = Some pos"
    using find_key_present by blast
  then have "make_pos_key pos = k" using find_key_Some by blast
  then show "\<exists>ext. missing_in_source_body ar (assign_pos_key df) k bs = Inr (bs @ ext) \<and>
      (\<forall>b\<in>set ext. brk_key b = k)"
    using missing_in_source_body_result [OF f, where bs = bs and ar = ar] by simp
qed

lemma check_quantity_key:
  "check_quantity ar s t bs = Inr (bs @ q) \<Longrightarrow> \<forall>b\<in>set q. brk_key b = make_pos_key s"
  by (auto simp: check_quantity_result split: if_splits)

lemma check_price_key:
  "check_price ar s t bs = Inr (bs @ q) \<Longrightarrow> \<forall>b\<in>set q. brk_key b = make_pos_key s"
  by (auto simp: check_price_result split: if_splits)

lemma check_market_value_key:
  "check_market_value ar s t bs = Inr (bs @ q) \<Longrightarrow> \<forall>b\<in>set q. brk_key b = make_pos_key s"
  by (auto simp: check_market_value_result split: if_splits)

lemma compare_step:
  "\<forall>k\<in>set (map make_pos_key (rows idf)) \<inter> set (map make_pos_key (rows pdf)). \<forall>bs. \<exists>ext.
      compare_body ar (assign_pos_key idf) (assign_pos_key pdf) k bs = Inr (bs @ ext) \<and>
      (\<forall>b\<in>set ext. brk_key b = k)"
proof (intro ballI allI)
  fix k bs assume k: "k \<in> set (map make_pos_key (rows idf)) \<inter> set (map make_pos_key (rows pdf))"
  then obtain s where fs: "find (\<lambda>p. make_pos_key p = k) (rows idf) = Some s"
    using find_key_present by blast
  from k obtain t where ft: "find (\<lambda>p. make_pos_key p = k) (rows pdf) = Some t"
    using find_key_present by blast
  have ks: "make_pos_key s = k" using fs find_key_Some by blast
  from compare_body_result [OF fs ft, where bs = bs and ar = ar] obtain q p m where
    q: "check_quantity ar s t bs = Inr (bs @ q)" and
    p: "check_price ar s t (bs @ q) = Inr ((bs @ q) @ p)" and
    m: "check_market_value ar s t ((bs @ q) @ p) = Inr (((bs @ q) @ p) @ m)" and
    c: "compare_body ar (assign_pos_key idf) (assign_pos_key pdf) k bs = Inr (bs @ q @ p @ m)"
    by blast
  have "\<forall>b\<in>set (q @ p @ m). brk_key b = k"
    using check_quantity_key [OF q] check_price_key [OF p] check_market_value_key [OF m] ks
    by auto
  with c show "\<exists>ext. compare_body ar (assign_pos_key idf) (assign_pos_key pdf) k bs = Inr (bs @ ext) \<and>
      (\<forall>b\<in>set ext. brk_key b = k)" by blast
qed

lemma reconcile_structure:
  assumes "set_iteration iter"
  shows "\<exists>m1 m2 m3.
    for_each (missing_in_target_body (assign_pos_key idf))
      (iter (set (map make_pos_key (rows idf)) - set (map make_pos_key (rows pdf)))) [] = Inr ([] @ m1) \<and>
    for_each (missing_in_source_body ar (assign_pos_key pdf))
      (iter (set (map make_pos_key (rows pdf)) - set (map make_pos_key (rows idf)))) m1 = Inr (m1 @ m2) \<and>
    for_each (compare_body ar (assign_pos_key idf) (assign_pos_key pdf))
      (iter (set (map make_pos_key (rows idf)) \<inter> set (map make_pos_key (rows pdf)))) (m1 @ m2)
        = Inr ((m1 @ m2) @ m3) \<and>
    reconcile_positions ar iter idf pdf = (assign_pos_key idf, assign_pos_key pdf, Inr (m1 @ m2 @ m3))"
proof -
  let ?KI = "set (map make_pos_key (rows idf))" and ?KP = "set (map make_pos_key (rows pdf))"
  have s1: "set (iter (?KI - ?KP)) = ?KI - ?KP" and s2: "set (iter (?KP - ?KI)) = ?KP - ?KI"
    and s3: "set (iter (?KI \<inter> ?KP)) = ?KI \<inter> ?KP"
    using assms by (simp_all add: set_iteration_def)
  have "\<forall>k\<in>set (iter (?KI - ?KP)). \<forall>bs. \<exists>ext.
      missing_in_target_body (assign_pos_key idf) k bs = Inr (bs @ ext)"
    using target_step [of idf] s1 by blast
  from for_each_append [OF this, of "[]"] obtain m1 where
    m1: "for_each (missing_in_target_body (assign_pos_key idf)) (iter (?KI - ?KP)) [] = Inr ([] @ m1)"
    by blast
  have "\<forall>k\<in>set (iter (?KP - ?KI)). \<forall>bs. \<exists>ext.
      missing_in_source_body ar (assign_pos_key pdf) k bs = Inr (bs @ ext)"
    using source_step [where df = pdf and ar = ar] s2 by blast
  from for_each_append [OF this, of m1] obtain m2 where
    m2: "for_each (missing_in_source_body ar (assign_pos_key pdf)) (iter (?KP - ?KI)) m1 = Inr (m1 @ m2)"
    by blast
  have "\<forall>k\<in>set (iter (?KI \<inter> ?KP)). \<forall>bs. \<exists>ext.
      compare_body ar (assign_pos_key idf) (assign_pos_key pdf) k bs = Inr (bs @ ext)"
    using compare_step [where idf = idf and pdf = pdf and ar = ar] s3 by blast
  from for_each_append [OF this, of "m1 @ m2"] obtain m3 where
    m3: "for_each (compare_body ar (assign_pos_key idf) (assign_pos_key pdf)) (iter (?KI \<inter> ?KP)) (m1 @ m2)
           = Inr ((m1 @ m2) @ m3)"
    by blast
  have c1: "col_pos_key (assign_pos_key idf) = Inr (map make_pos_key (rows idf))"
    and c2: "col_pos_key (assign_pos_key pdf) = Inr (map make_pos_key (rows pdf))"
    by (simp_all add: col_pos_key_def assign_pos_key_def)
  have "reconcile_positions ar iter idf pdf = (assign_pos_key idf, assign_pos_key pdf, Inr (m1 @ m2 @ m3))"
    using m1 m2 m3 unfolding reconcile_positions_def Let_def c1 c2 by simp
  with m1 m2 m3 show ?thesis by blast
qed

lemma set_iteration_sorted_list_of_set: "set_iteration sorted_list_of_set"
  by (simp add: set_iteration_def)

lemma for_each_key_range:
  assumes "\<forall>k\<in>set keys. \<forall>bs. \<exists>ext. body k bs = Inr (bs @ ext) \<and> (\<forall>b\<in>set ext. key_of b = k)"
    and "for_each body keys bs = Inr (bs @ rest)" and "b \<in> set rest"
  shows "key_of b \<in> set keys"
proof (rule ccontr)
  assume "key_of b \<notin> set keys"
  from for_each_key_absent [OF assms(1) this assms(2)]
  have "filter (\<lambda>c. key_of c = key_of b) rest = []" .
  with assms(3) show False by (auto simp: filter_empty_conv)
qed

lemma reconcile_key_filter:
  assumes "set_iteration iter"
  shows "\<exists>bs. reconcile_positions ar iter idf pdf = (assign_pos_key idf, assign_pos_key pdf, Inr bs) \<and>
    (k \<in> set (map make_pos_key (rows idf)) - set (map make_pos_key (rows pdf)) \<longrightarrow>
       (\<exists>pre. missing_in_target_body (assign_pos_key idf) k pre
                = Inr (pre @ filter (\<lambda>b. brk_key b = k) bs))) \<and>
    (k \<in> set (map make_pos_key (rows pdf)) - set (map make_pos_key (rows idf)) \<longrightarrow>
       (\<exists>pre. missing_in_source_body ar (assign_pos_key pdf) k pre
                = Inr (pre @ filter (\<lambda>b. brk_key b = k) bs))) \<and>
    (k \<in> set (map make_pos_key (rows idf)) \<inter> set (map make_pos_key (rows pdf)) \<longrightarrow>
       (\<exists>pre. compare_body ar (assign_pos_key idf) (assign_pos_key pdf) k pre
                = Inr (pre @ filter (\<lambda>b. brk_key b = k) bs))) \<and>
    (\<forall>b\<in>set bs. brk_key b \<in> set (map make_pos_key (rows idf)) \<union> set (map make_pos_key (rows pdf)))"
proof -
  let ?KI = "set (map make_pos_key (rows idf))" and ?KP = "set (map make_pos_key (rows pdf))"
  let ?F = "filter (\<lambda>b. brk_key b = k)"
  have s1: "set (iter (?KI - ?KP)) = ?KI - ?KP" and s2: "set (iter (?KP - ?KI)) = ?KP - ?KI"
    and s3: "set (iter (?KI \<inter> ?KP)) = ?KI \<inter> ?KP"
    and d1: "distinct (iter (?KI - ?KP))" and d2: "distinct (iter (?KP - ?KI))"
    and d3: "distinct (iter (?KI \<inter> ?KP))"
    using assms by (simp_all add: set_iteration_def)
  have st1: "\<forall>k\<in>set (iter (?KI - ?KP)). \<forall>bs. \<exists>ext.
      missing_in_target_body (assign_pos_key idf) k bs = Inr (bs @ ext) \<and> (\<forall>b\<in>set ext. brk_key b = k)"
    using target_step [of idf] s1 by blast
  have st2: "\<forall>k\<in>set (iter (?KP - ?KI)). \<forall>bs. \<exists>ext.
      missing_in_source_body ar (assign_pos_key pdf) k bs = Inr (bs @ ext) \<and> (\<forall>b\<in>set ext. brk_key b = k)"
    using source_step [where df = pdf and ar = ar] s2 by blast
  have st3: "\<forall>k\<in>set (iter (?KI \<inter> ?KP)). \<forall>bs. \<exists>ext.
      compare_body ar (assign_pos_key idf) (assign_pos_key pdf) k bs = Inr (bs @ ext) \<and> (\<forall>b\<in>set ext. brk_key b = k)"
    using compare_step [where idf = idf and pdf = pdf and ar = ar] s3 by blast
  from reconcile_structure [OF assms, where idf = idf and pdf = pdf and ar = ar] obtain m1 m2 m3 where
    m1: "for_each (missing_in_target_body (assign_pos_key idf)) (iter (?KI - ?KP)) [] = Inr ([] @ m1)" and
    m2: "for_each (missing_in_source_body ar (assign_pos_key pdf)) (iter (?KP - ?KI)) m1 = Inr (m1 @ m2)" and
    m3: "for_each (compare_body ar (assign_pos_key idf) (assign_pos_key pdf)) (iter (?KI \<inter> ?KP)) (m1 @ m2)
           = Inr ((m1 @ m2) @ m3)" and
    r: "reconcile_positions ar iter idf pdf = (assign_pos_key idf, assign_pos_key pdf, Inr (m1 @ m2 @ m3))"
    by blast
  have F: "?F (m1 @ m2 @ m3) = ?F m1 @ ?F m2 @ ?F m3" by simp
  have a: "\<exists>pre. missing_in_target_body (assign_pos_key idf) k pre = Inr (pre @ ?F (m1 @ m2 @ m3))"
    if k: "k \<in> ?KI - ?KP"
  proof -
    have "k \<in> set (iter (?KI - ?KP))" using k s1 by simp
    from for_each_key_present [OF st1 d1 this m1]
    obtain pre where p: "missing_in_target_body (assign_pos_key idf) k pre = Inr (pre @ ?F m1)" by blast
    have "k \<notin> set (iter (?KP - ?KI))" using k s2 by simp
    from for_each_key_absent [OF st2 this m2] have e2: "?F m2 = []" .
    have "k \<notin> set (iter (?KI \<inter> ?KP))" using k s3 by simp
    from for_each_key_absent [OF st3 this m3] have e3: "?F m3 = []" .
    show ?thesis using p e2 e3 F by auto
  qed
  have b: "\<exists>pre. missing_in_source_body ar (assign_pos_key pdf) k pre = Inr (pre @ ?F (m1 @ m2 @ m3))"
    if k: "k \<in> ?KP - ?KI"
  proof -
    have "k \<in> set (iter (?KP - ?KI))" using k s2 by simp
    from for_each_key_present [OF st2 d2 this m2]
    obtain pre where p: "missing_in_source_body ar (assign_pos_key pdf) k pre = Inr (pre @ ?F m2)" by blast
    have "k \<notin> set (iter (?KI - ?KP))" using k s1 by simp
    from for_each_key_absent [OF st1 this m1] have e1: "?F m1 = []" .
    have "k \<notin> set (iter (?KI \<inter> ?KP))" using k s3 by simp
    from for_each_key_absent [OF st3 this m3] have e3: "?F m3 = []" .
    show ?thesis using p e1 e3 F by auto
  qed
  have c: "\<exists>pre. compare_body ar (assign_pos_key idf) (assign_pos_key pdf) k pre = Inr (pre @ ?F (m1 @ m2 @ m3))"
    if k: "k \<in> ?KI \<inter> ?KP"
  proof -
    have "k \<in> set (iter (?KI \<inter> ?KP))" using k s3 by simp
    from for_each_key_present [OF st3 d3 this m3]
    obtain pre where p: "compare_body ar (assign_pos_key idf) (assign_pos_key pdf) k pre = Inr (pre @ ?F m3)"
      by blast
    have "k \<notin> set (iter (?KI - ?KP))" using k s1 by simp
    from for_each_key_absent [OF st1 this m1] have e1: "?F m1 = []" .
    have "k \<notin> set (iter (?KP - ?KI))" using k s2 by simp
    from for_each_key_absent [OF st2 this m2] have e2: "?F m2 = []" .
    show ?thesis using p e1 e2 F by auto
  qed
  have d: "\<forall>b\<in>set (m1 @ m2 @ m3). brk_key b \<in> ?KI \<union> ?KP"
  proof
    fix b assume "b \<in> set (m1 @ m2 @ m3)"
    then consider "b \<in> set m1" | "b \<in> set m2" | "b \<in> set m3" by auto
    then show "brk_key b \<in> ?KI \<union> ?KP"
    proof cases
      case 1
      from for_each_key_range [OF st1 m1 1] s1 show ?thesis by auto
    next
      case 2
      from for_each_key_range [OF st2 m2 2] s2 show ?thesis by auto
    next
      case 3
      from for_each_key_range [OF st3 m3 3] s3 show ?thesis by auto
    qed
  qed
  from r a b c d show ?thesis by blast
qed

lemma check_quantity_shape:
  assumes "check_quantity ar s t pre = Inr (pre @ q)"
  shows "(\<forall>b\<in>set q. break_type b = ''Quantity Mismatch'' \<and> brk_key b = make_pos_key s) \<and>
         (q \<noteq> [] \<longleftrightarrow>
            val (op_abs ar (if val (quantity s) \<noteq> 0
               then op_mul ar (op_truediv ar (op_sub ar (quantity s) (quantity t)) (quantity s)) (IntNum 100)
               else IntNum 0)) > 1)"
  using assms unfolding check_quantity_result by (auto split: if_splits)

lemma check_price_shape:
  assumes "check_price ar s t pre = Inr (pre @ q)"
  shows "(\<forall>b\<in>set q. break_type b = ''Price Mismatch'' \<and> brk_key b = make_pos_key s) \<and>
         (q \<noteq> [] \<longleftrightarrow>
            val (op_abs ar (if val (price s) \<noteq> 0
               then op_mul ar (op_truediv ar (op_sub ar (price s) (price t)) (price s)) (IntNum 100)
               else IntNum 0)) > 3602879701896397 / 2 ^ 55)"
  using assms unfolding check_price_result by (auto split: if_splits)

lemma check_market_value_shape:
  assumes "check_market_value ar s t pre = Inr (pre @ q)"
  shows "(\<forall>b\<in>set q. break_type b = ''Market Value Mismatch'' \<and> brk_key b = make_pos_key s) \<and>
         (q \<noteq> [] \<longleftrightarrow>
            val (op_abs ar (if val (market_value s) \<noteq> 0
               then op_mul ar (op_truediv ar (op_sub ar (market_value s) (market_value t)) (market_value s)) (IntNum 100)
               else IntNum 0)) > 2
            \<and> val (op_abs ar (op_sub ar (market_value s) (market_value t))) > 100)"
  using assms unfolding check_market_value_result by (auto split: if_splits)

lemma matched_key_breaks:
  assumes "set_iteration iter"
    and fs: "find (\<lambda>p. make_pos_key p = k) (rows idf) = Some s"
    and ft: "find (\<lambda>p. make_pos_key p = k) (rows pdf) = Some t"
  shows "\<exists>bs pre q p m.
     reconcile_positions ar iter idf pdf = (assign_pos_key idf, assign_pos_key pdf, Inr bs) \<and>
     filter (\<lambda>b. brk_key b = k) bs = q @ p @ m \<and>
     check_quantity ar s t pre = Inr (pre @ q) \<and>
     check_price ar s t (pre @ q) = Inr ((pre @ q) @ p) \<and>
     check_market_value ar s t ((pre @ q) @ p) = Inr (((pre @ q) @ p) @ m)"
proof -
  have ki: "k \<in> set (map make_pos_key (rows idf))"
    using find_key_Some [OF fs] by force
  have kp: "k \<in> set (map make_pos_key (rows pdf))"
    using find_key_Some [OF ft] by force
  from reconcile_key_filter [OF assms(1), where idf = idf and pdf = pdf and k = k and ar = ar] ki kp
  obtain bs pre where
    r: "reconcile_positions ar iter idf pdf = (assign_pos_key idf, assign_pos_key pdf, Inr bs)" and
    c: "compare_body ar (assign_pos_key idf) (assign_pos_key pdf) k pre
          = Inr (pre @ filter (\<lambda>b. brk_key b = k) bs)"
    by auto
  from compare_body_result [OF fs ft, where bs = pre and ar = ar] obtain q p m where
    q: "check_quantity ar s t pre = Inr (pre @ q)" and
    p: "check_price ar s t (pre @ q) = Inr ((pre @ q) @ p)" and
    m: "check_market_value ar s t ((pre @ q) @ p) = Inr (((pre @ q) @ p) @ m)" and
    c': "compare_body ar (assign_pos_key idf) (assign_pos_key pdf) k pre = Inr (pre @ q @ p @ m)"
    by blast
  from c c' have "filter (\<lambda>b. brk_key b = k) bs = q @ p @ m" by simp
  with r q p m show ?thesis by blast
qed

lemma exact_arith_simps [simp]:
  "op_sub exact_arith = exact_sub"
  "op_truediv exact_arith = (\<lambda>a b. FloatNum (val a / val b))"
  "op_mul exact_arith = exact_mul"
  "op_neg exact_arith = exact_neg"
  "op_abs exact_arith = exact_abs"
  "op_round exact_arith = exact_round"
  by (simp_all add: exact_arith_def)

lemma val_exact_sub [simp]: "val (exact_sub a b) = val a - val b"
  by (cases a; cases b) simp_all

lemma val_exact_mul [simp]: "val (exact_mul a b) = val a * val b"
  by (cases a; cases b) simp_all

lemma val_exact_abs [simp]: "val (exact_abs a) = \<bar>val a\<bar>"
  by (cases a) simp_all

lemma zero_exact_exact_arith: "zero_exact exact_arith"
  by (simp add: zero_exact_def)

lemma zero_exact_pct:
  assumes "zero_exact ar"
  shows "val (op_abs ar (if val x \<noteq> 0
            then op_mul ar (op_truediv ar (op_sub ar x x) x) (IntNum 100)
            else IntNum 0)) = 0"
proof (cases "val x = 0")
  case True
  have "val (IntNum 0) = 0" by simp
  then have "val (op_abs ar (IntNum 0)) = 0" using assms unfolding zero_exact_def by blast
  with True show ?thesis by simp
next
  case False
  have "val (op_sub ar x x) = 0" using assms unfolding zero_exact_def by blast
  then have "val (op_truediv ar (op_sub ar x x) x) = 0"
    using assms False unfolding zero_exact_def by blast
  then have "val (op_mul ar (op_truediv ar (op_sub ar x x) x) (IntNum 100)) = 0"
    using assms unfolding zero_exact_def by blast
  then have "val (op_abs ar (op_mul ar (op_truediv ar (op_sub ar x x) x) (IntNum 100))) = 0"
    using assms unfolding zero_exact_def by blast
  with False show ?thesis by simp
qed

lemma check_quantity_equal:
  assumes "zero_exact ar" and "quantity s = quantity t"
    and "check_quantity ar s t pre = Inr (pre @ q)"
  shows "q = []"
proof -
  from check_quantity_shape [OF assms(3)]
  have "q \<noteq> [] \<longleftrightarrow>
            val (op_abs ar (if val (quantity s) \<noteq> 0
               then op_mul ar (op_truediv ar (op_sub ar (quantity s) (quantity t)) (quantity s)) (IntNum 100)
               else IntNum 0)) > 1"
    by blast
  then show ?thesis
    unfolding assms(2) zero_exact_pct [OF assms(1)] by simp
qed

lemma check_price_equal:
  assumes "zero_exact ar" and "price s = price t"
    and "check_price ar s t pre = Inr (pre @ q)"
  shows "q = []"
proof -
  from check_price_shape [OF assms(3)]
  have "q \<noteq> [] \<longleftrightarrow>
            val (op_abs ar (if val (price s) \<noteq> 0
               then op_mul ar (op_truediv ar (op_sub ar (price s) (price t)) (price s)) (IntNum 100)
               else IntNum 0)) > 3602879701896397 / 2 ^ 55"
    by blast
  then show ?thesis
    unfolding assms(2) zero_exact_pct [OF assms(1)] by simp
qed

lemma check_market_value_equal:
  assumes "zero_exact ar" and "market_value s = market_value t"
    and "check_market_value ar s t pre = Inr (pre @ q)"
  shows "q = []"
proof -
  from check_market_value_shape [OF assms(3)]
  have "q \<noteq> [] \<longleftrightarrow>
            val (op_abs ar (if val (market_value s) \<noteq> 0
               then op_mul ar (op_truediv ar (op_sub ar (market_value s) (market_value t)) (market_value s)) (IntNum 100)
               else IntNum 0)) > 2
            \<and> val (op_abs ar (op_sub ar (market_value s) (market_value t))) > 100"
    by blast
  then show ?thesis
    unfolding assms(2) zero_exact_pct [OF assms(1)] by simp
qed

lemma identical_key_quiet:
  assumes "set_iteration iter" and z: "zero_exact ar"
    and fs: "find (\<lambda>p. make_pos_key p = k) (rows idf) = Some s"
    and ft: "find (\<lambda>p. make_pos_key p = k) (rows pdf) = Some t"
    and eq: "quantity s = quantity t" "price s = price t" "market_value s = market_value t"
  shows "\<exists>bs. reconcile_positions ar iter idf pdf = (assign_pos_key idf, assign_pos_key pdf, Inr bs) \<and>
              filter (\<lambda>b. brk_key b = k) bs = []"
proof -
  from matched_key_breaks [OF assms(1) fs ft, where ar = ar] obtain bs pre q p m where
    r: "reconcile_positions ar iter idf pdf = (assign_pos_key idf, assign_pos_key pdf, Inr bs)" and
    f: "filter (\<lambda>b. brk_key b = k) bs = q @ p @ m" and
    q: "check_quantity ar s t pre = Inr (pre @ q)" and
    p: "check_price ar s t (pre @ q) = Inr ((pre @ q) @ p)" and
    m: "check_market_value ar s t ((pre @ q) @ p) = Inr (((pre @ q) @ p) @ m)"
    by blast
  have "q = []" using check_quantity_equal [OF z eq(1) q] .
  moreover have "p = []" using check_price_equal [OF z eq(2) p] .
  moreover have "m = []" using check_market_value_equal [OF z eq(3) m] .
  ultimately have "filter (\<lambda>b. brk_key b = k) bs = []" using f by simp
  with r show ?thesis by blast
qed

lemma same_frame_quiet:
  assumes "set_iteration iter" and z: "zero_exact ar"
  shows "reconcile_positions ar iter df df = (assign_pos_key df, assign_pos_key df, Inr [])"
proof -
  from reconcile_key_filter [OF assms(1), where idf = df and pdf = df and ar = ar and k = undefined]
  obtain bs where
    r: "reconcile_positions ar iter df df = (assign_pos_key df, assign_pos_key df, Inr bs)" and
    keys: "\<forall>b\<in>set bs. brk_key b \<in> set (map make_pos_key (rows df)) \<union> set (map make_pos_key (rows df))"
    by blast
  have "bs = []"
  proof (rule ccontr)
    assume "bs \<noteq> []"
    then obtain b where b: "b \<in> set bs" by (cases bs) auto
    with keys have "brk_key b \<in> set (map make_pos_key (rows df))" by blast
    from find_key_present [OF this] obtain s where
      fs: "find (\<lambda>p. make_pos_key p = brk_key b) (rows df) = Some s" by blast
    from identical_key_quiet [OF assms(1) z fs fs] obtain bs' where
      r': "reconcile_positions ar iter df df = (assign_pos_key df, assign_pos_key df, Inr bs')" and
      e: "filter (\<lambda>c. brk_key c = brk_key b) bs' = []" by blast
    from r r' have "bs' = bs" by simp
    with e b show False by (auto simp: filter_empty_conv)
  qed
  with r show ?thesis by simp
qed

lemma select_first_error:
  "select_first df key = Inl e \<Longrightarrow> e \<noteq> ZeroDivisionError"
  by (auto simp: select_first_def col_pos_key_def iloc0_def split: option.splits list.splits)

lemma for_each_error:
  "for_each body keys s = Inl e \<Longrightarrow> \<exists>k s'. body k s' = Inl e"
proof (induction keys arbitrary: s)
  case Nil
  then show ?case by simp
next
  case (Cons k keys)
  show ?case
  proof (cases "body k s")
    case (Inl e')
    with Cons.prems have "e' = e" by simp
    with Inl show ?thesis by blast
  next
    case (Inr s')
    with Cons.prems have "for_each body keys s' = Inl e" by simp
    from Cons.IH [OF this] show ?thesis .
  qed
qed

lemma missing_in_target_body_error:
  "missing_in_target_body df k bs = Inl e \<Longrightarrow> e \<noteq> ZeroDivisionError"
  by (auto simp: missing_in_target_body_def dest: select_first_error split: sum.splits)

lemma missing_in_source_body_error:
  "missing_in_source_body ar df k bs = Inl e \<Longrightarrow> e \<noteq> ZeroDivisionError"
  by (auto simp: missing_in_source_body_def dest: select_first_error split: sum.splits)

lemma compare_body_error:
  "compare_body ar idf pdf k bs = Inl e \<Longrightarrow> e \<noteq> ZeroDivisionError"
  by (auto simp: compare_body_def check_quantity_result check_price_result
      check_market_value_result dest: select_first_error split: sum.splits)

lemma reconcile_no_zero_division:
  "snd (snd (reconcile_positions ar iter idf pdf)) \<noteq> Inl ZeroDivisionError"
proof
  assume a: "snd (snd (reconcile_positions ar iter idf pdf)) = Inl ZeroDivisionError"
  let ?KI = "set (map make_pos_key (rows idf))" and ?KP = "set (map make_pos_key (rows pdf))"
  have c1: "col_pos_key (assign_pos_key idf) = Inr (map make_pos_key (rows idf))"
    and c2: "col_pos_key (assign_pos_key pdf) = Inr (map make_pos_key (rows pdf))"
    by (simp_all add: col_pos_key_def assign_pos_key_def)
  show False
  proof (cases "for_each (missing_in_target_body (assign_pos_key idf)) (iter (?KI - ?KP)) []")
    case (Inl e)
    from for_each_error [OF Inl] have "e \<noteq> ZeroDivisionError"
      using missing_in_target_body_error by blast
    moreover have "snd (snd (reconcile_positions ar iter idf pdf)) = Inl e"
      using Inl unfolding reconcile_positions_def Let_def c1 c2 by simp
    ultimately show False using a by simp
  next
    case (Inr m1)
    show False
    proof (cases "for_each (missing_in_source_body ar (assign_pos_key pdf)) (iter (?KP - ?KI)) m1")
      case (Inl e)
      from for_each_error [OF Inl] have "e \<noteq> ZeroDivisionError"
        using missing_in_source_body_error by blast
      moreover have "snd (snd (reconcile_positions ar iter idf pdf)) = Inl e"
        using Inl \<open>for_each (missing_in_target_body (assign_pos_key idf)) (iter (?KI - ?KP)) [] = Inr m1\<close>
        unfolding reconcile_positions_def Let_def c1 c2 by simp
      ultimately show False using a by simp
    next
      case m2: (Inr m2)
      have r: "snd (snd (reconcile_positions ar iter idf pdf)) =
          for_each (compare_body ar (assign_pos_key idf) (assign_pos_key pdf)) (iter (?KI \<inter> ?KP)) m2"
        using m2 \<open>for_each (missing_in_target_body (assign_pos_key idf)) (iter (?KI - ?KP)) [] = Inr m1\<close>
        unfolding reconcile_positions_def Let_def c1 c2 by simp
      from a r have "for_each (compare_body ar (assign_pos_key idf) (assign_pos_key pdf))
          (iter (?KI \<inter> ?KP)) m2 = Inl ZeroDivisionError" by simp
      from for_each_error [OF this] show False
        using compare_body_error by blast
    qed
  qed
qed

lemma missing_target_key:
  assumes "set_iteration iter"
    and f: "find (\<lambda>p. make_pos_key p = k) (rows idf) = Some pos"
    and n: "k \<notin> set (map make_pos_key (rows pdf))"
  shows "\<exists>bs n. reconcile_positions ar iter idf pdf = (assign_pos_key idf, assign_pos_key pdf, Inr bs) \<and>
     filter (\<lambda>b. brk_key b = k) bs =
       [\<lparr>break_id = format_break_id n, break_type = ''Missing in Target'',
         severity = ''CRITICAL'', brk_symbol = symbol pos, brk_account_id = account_id pos,
         internal_value = market_value pos, pb_value = IntNum 0,
         variance = market_value pos, variance_pct = FloatNum 100\<rparr>]"
proof -
  have ki: "k \<in> set (map make_pos_key (rows idf))"
    using find_key_Some [OF f] by force
  from reconcile_key_filter [OF assms(1), where idf = idf and pdf = pdf and k = k and ar = ar] ki n
  obtain bs pre where
    r: "reconcile_positions ar iter idf pdf = (assign_pos_key idf, assign_pos_key pdf, Inr bs)" and
    c: "missing_in_target_body (assign_pos_key idf) k pre
          = Inr (pre @ filter (\<lambda>b. brk_key b = k) bs)"
    by auto
  from c have "filter (\<lambda>b. brk_key b = k) bs =
       [\<lparr>break_id = format_break_id (length pre + 1), break_type = ''Missing in Target'',
         severity = ''CRITICAL'', brk_symbol = symbol pos, brk_account_id = account_id pos,
         internal_value = market_value pos, pb_value = IntNum 0,
         variance = market_value pos, variance_pct = FloatNum 100\<rparr>]"
    unfolding missing_in_target_body_result [OF f] by simp
  with r show ?thesis by blast
qed

lemma missing_source_key:
  assumes "set_iteration iter"
    and f: "find (\<lambda>p. make_pos_key p = k) (rows pdf) = Some pos"
    and n: "k \<notin> set (map make_pos_key (rows idf))"
  shows "\<exists>bs n. reconcile_positions ar iter idf pdf = (assign_pos_key idf, assign_pos_key pdf, Inr bs) \<and>
     filter (\<lambda>b. brk_key b = k) bs =
       [\<lparr>break_id = format_break_id n, break_type = ''Missing in Source'',
         severity = ''CRITICAL'', brk_symbol = symbol pos, brk_account_id = account_id pos,
         internal_value = IntNum 0, pb_value = market_value pos,
         variance = op_neg ar (market_value pos), variance_pct = FloatNum (- 100)\<rparr>]"
proof -
  have kp: "k \<in> set (map make_pos_key (rows pdf))"
    using find_key_Some [OF f] by force
  from reconcile_key_filter [OF assms(1), where idf = idf and pdf = pdf and k = k and ar = ar] kp n
  obtain bs pre where
    r: "reconcile_positions ar iter idf pdf = (assign_pos_key idf, assign_pos_key pdf, Inr bs)" and
    c: "missing_in_source_body ar (assign_pos_key pdf) k pre
          = Inr (pre @ filter (\<lambda>b. brk_key b = k) bs)"
    by auto
  from c have "filter (\<lambda>b. brk_key b = k) bs =
       [\<lparr>break_id = format_break_id (length pre + 1), break_type = ''Missing in Source'',
         severity = ''CRITICAL'', brk_symbol = symbol pos, brk_account_id = account_id pos,
         internal_value = IntNum 0, pb_value = market_value pos,
         variance = op_neg ar (market_value pos), variance_pct = FloatNum (- 100)\<rparr>]"
    unfolding missing_in_source_body_result [OF f] by simp
  with r show ?thesis by blast
qed

lemma find_filter_implied:
  "(\<And>x. P x \<Longrightarrow> Q x) \<Longrightarrow> find P (filter Q xs) = find P xs"
  by (induction xs) auto

lemma find_first_rows:
  "find (\<lambda>p. make_pos_key p = k) (first_rows xs) = find (\<lambda>p. make_pos_key p = k) xs"
proof (induction xs)
  case Nil
  then show ?case by simp
next
  case (Cons p ps)
  show ?case
  proof (cases "make_pos_key p = k")
    case True
    then show ?thesis by simp
  next
    case False
    have "find (\<lambda>q. make_pos_key q = k) (filter (\<lambda>q. make_pos_key q \<noteq> make_pos_key p) (first_rows ps))
        = find (\<lambda>q. make_pos_key q = k) (first_rows ps)"
      by (rule find_filter_implied) (use False in auto)
    with False Cons.IH show ?thesis by simp
  qed
qed

lemma image_first_rows:
  "make_pos_key ` set (first_rows xs) = make_pos_key ` set xs"
proof (induction xs)
  case Nil
  then show ?case by simp
next
  case (Cons p ps)
  have "make_pos_key ` {q \<in> set (first_rows ps). make_pos_key q \<noteq> make_pos_key p}
      = make_pos_key ` set (first_rows ps) - {make_pos_key p}" by auto
  with Cons.IH show ?case by auto
qed

lemma distinct_first_rows: "distinct (map make_pos_key (first_rows xs))"
proof (induction xs)
  case Nil
  then show ?case by simp
next
  case (Cons p ps)
  then have "distinct (map make_pos_key (filter (\<lambda>q. make_pos_key q \<noteq> make_pos_key p) (first_rows ps)))"
    by (rule distinct_map_filter)
  then show ?case by auto
qed

lemma select_first_first_rows:
  "select_first (assign_pos_key (df\<lparr>rows := first_rows (rows df)\<rparr>)) k
     = select_first (assign_pos_key df) k"
  by (simp add: select_first_find find_first_rows)

lemma reconcile_first_rows:
  "snd (snd (reconcile_positions ar iter
      (idf\<lparr>rows := first_rows (rows idf)\<rparr>) (pdf\<lparr>rows := first_rows (rows pdf)\<rparr>)))
   = snd (snd (reconcile_positions ar iter idf pdf))"
proof -
  let ?idf = "idf\<lparr>rows := first_rows (rows idf)\<rparr>" and ?pdf = "pdf\<lparr>rows := first_rows (rows pdf)\<rparr>"
  have c: "col_pos_key (assign_pos_key df) = Inr (map make_pos_key (rows df))" for df
    by (simp add: col_pos_key_def assign_pos_key_def)
  have b1: "missing_in_target_body (assign_pos_key ?idf) = missing_in_target_body (assign_pos_key idf)"
    by (intro ext) (simp only: missing_in_target_body_def select_first_first_rows)
  have b2: "missing_in_source_body ar (assign_pos_key ?pdf) = missing_in_source_body ar (assign_pos_key pdf)"
    by (intro ext) (simp only: missing_in_source_body_def select_first_first_rows)
  have b3: "compare_body ar (assign_pos_key ?idf) (assign_pos_key ?pdf)
      = compare_body ar (assign_pos_key idf) (assign_pos_key pdf)"
    by (intro ext) (simp only: compare_body_def select_first_first_rows)
  have r1: "rows ?idf = first_rows (rows idf)" and r2: "rows ?pdf = first_rows (rows pdf)"
    by simp_all
  have k: "set (map make_pos_key (first_rows xs)) = set (map make_pos_key xs)" for xs
    using image_first_rows by simp
  show ?thesis
    unfolding reconcile_positions_def Let_def c b1 b2 b3
    by (simp add: image_first_rows cong: sum.case_cong)
qed

lemma decimal_small: "n < 10 \<Longrightarrow> decimal n = [digit_char n]"
  by (subst decimal.simps) simp

lemma decimal_large:
  "\<not> n < 10 \<Longrightarrow> decimal n = decimal (n div 10) @ [digit_char (n mod 10)]"
  by (subst decimal.simps) simp

lemma decimal_nonempty: "decimal n \<noteq> []"
  by (cases "n < 10") (simp_all add: decimal_small decimal_large)

lemma of_char_digit_char: "d < 10 \<Longrightarrow> of_char (digit_char d) - 48 = d"
  by (simp add: digit_char_def)

lemma decimal_value_snoc:
  "decimal_value (s @ [c]) = 10 * decimal_value s + (of_char c - 48)"
  by (simp add: decimal_value_def)

lemma decimal_value_decimal: "decimal_value (decimal n) = n"
proof (induction n rule: decimal.induct)
  case (1 n)
  show ?case
  proof (cases "n < 10")
    case True
    have "decimal_value [digit_char n] = of_char (digit_char n) - 48"
      by (simp add: decimal_value_def)
    then show ?thesis using True by (simp only: decimal_small of_char_digit_char)
  next
    case False
    have "decimal_value (decimal (n div 10)) = n div 10" using 1 False by simp
    moreover have "of_char (digit_char (n mod 10)) - 48 = n mod 10"
      by (rule of_char_digit_char) simp
    ultimately have "decimal_value (decimal (n div 10) @ [digit_char (n mod 10)]) = n"
      by (simp only: decimal_value_snoc) simp
    then show ?thesis by (simp only: decimal_large [OF False])
  qed
qed

lemma decimal_value_zeros:
  "decimal_value (replicate k CHR ''0'' @ s) = decimal_value s"
proof -
  have "foldl (\<lambda>a c. 10 * a + (of_char c - 48)) 0 (replicate k CHR ''0'') = (0::nat)"
    by (induction k) simp_all
  then show ?thesis by (simp add: decimal_value_def)
qed

lemma decimal_value_format_04d: "decimal_value (format_04d n) = n"
  by (simp only: format_04d_def decimal_value_zeros decimal_value_decimal)

lemma format_break_id_inj: "format_break_id m = format_break_id n \<Longrightarrow> m = n"
proof -
  assume "format_break_id m = format_break_id n"
  then have "format_04d m = format_04d n" by (simp add: format_break_id_def)
  then have "decimal_value (format_04d m) = decimal_value (format_04d n)" by (rule arg_cong)
  then show "m = n" by (simp only: decimal_value_format_04d)
qed

lemma decimal_inj: "decimal m = decimal n \<Longrightarrow> m = n"
proof -
  assume "decimal m = decimal n"
  then have "decimal_value (decimal m) = decimal_value (decimal n)" by (rule arg_cong)
  then show "m = n" by (simp only: decimal_value_decimal)
qed

lemma length_decimal:
  "length (decimal n) \<le> Suc k \<longleftrightarrow> n < 10 ^ Suc k"
proof (induction n arbitrary: k rule: decimal.induct)
  case (1 n)
  show ?case
  proof (cases "n < 10")
    case True
    have "(1::nat) \<le> 10 ^ k" by simp
    then have "n < 10 * 10 ^ k" using True by linarith
    then have "n < 10 ^ Suc k" by simp
    moreover have "length (decimal n) = 1" using True by (simp add: decimal_small)
    ultimately show ?thesis by simp
  next
    case False
    have l: "length (decimal n) = Suc (length (decimal (n div 10)))"
      by (simp add: decimal_large [OF False])
    show ?thesis
    proof (cases k)
      case 0
      have "length (decimal (n div 10)) \<noteq> 0" using decimal_nonempty by simp
      then show ?thesis using False 0 l by simp
    next
      case (Suc k')
      have "length (decimal (n div 10)) \<le> Suc k' \<longleftrightarrow> n div 10 < 10 ^ Suc k'"
        using 1 False by simp
      moreover have "n div 10 < 10 ^ Suc k' \<longleftrightarrow> n < 10 ^ Suc k' * 10"
        by (rule div_less_iff_less_mult) simp
      ultimately show ?thesis using Suc l by (simp add: mult.commute)
    qed
  qed
qed

lemma length_decimal_4: "length (decimal n) \<le> 4 \<longleftrightarrow> n < 10000"
proof -
  have "length (decimal n) \<le> Suc 3 \<longleftrightarrow> n < 10 ^ Suc 3" by (rule length_decimal)
  then show ?thesis by simp
qed

lemma numbered_snoc:
  "numbered bs \<Longrightarrow> break_id b = format_break_id (length bs + 1) \<Longrightarrow> numbered (bs @ [b])"
  by (simp add: numbered_def)

lemma missing_in_target_body_numbered:
  "numbered bs \<Longrightarrow> missing_in_target_body df k bs = Inr bs' \<Longrightarrow> numbered bs'"
  by (auto simp: missing_in_target_body_def intro!: numbered_snoc split: sum.splits)

lemma missing_in_source_body_numbered:
  "numbered bs \<Longrightarrow> missing_in_source_body ar df k bs = Inr bs' \<Longrightarrow> numbered bs'"
  by (auto simp: missing_in_source_body_def intro!: numbered_snoc split: sum.splits)

lemma check_quantity_numbered:
  "numbered bs \<Longrightarrow> check_quantity ar s t bs = Inr bs' \<Longrightarrow> numbered bs'"
  unfolding check_quantity_result by (auto intro!: numbered_snoc split: if_splits)

lemma check_price_numbered:
  "numbered bs \<Longrightarrow> check_price ar s t bs = Inr bs' \<Longrightarrow> numbered bs'"
  unfolding check_price_result by (auto intro!: numbered_snoc split: if_splits)

lemma check_market_value_numbered:
  "numbered bs \<Longrightarrow> check_market_value ar s t bs = Inr bs' \<Longrightarrow> numbered bs'"
  unfolding check_market_value_result by (auto intro!: numbered_snoc split: if_splits)

lemma compare_body_numbered:
  assumes "numbered bs" and "compare_body ar idf pdf k bs = Inr bs'"
  shows "numbered bs'"
proof -
  from assms(2) obtain s t b1 b2 where
    q: "check_quantity ar s t bs = Inr b1" and
    p: "check_price ar s t b1 = Inr b2" and
    m: "check_market_value ar s t b2 = Inr bs'"
    by (auto simp: compare_body_def split: sum.splits)
  from check_quantity_numbered [OF assms(1) q] have "numbered b1" .
  from check_price_numbered [OF this p] have "numbered b2" .
  from check_market_value_numbered [OF this m] show ?thesis .
qed

lemma reconcile_numbered:
  assumes "set_iteration iter"
  shows "\<exists>bs. reconcile_positions ar iter idf pdf = (assign_pos_key idf, assign_pos_key pdf, Inr bs) \<and>
              numbered bs"
proof -
  let ?KI = "set (map make_pos_key (rows idf))" and ?KP = "set (map make_pos_key (rows pdf))"
  from reconcile_structure [OF assms, where idf = idf and pdf = pdf and ar = ar] obtain m1 m2 m3 where
    m1: "for_each (missing_in_target_body (assign_pos_key idf)) (iter (?KI - ?KP)) [] = Inr ([] @ m1)" and
    m2: "for_each (missing_in_source_body ar (assign_pos_key pdf)) (iter (?KP - ?KI)) m1 = Inr (m1 @ m2)" and
    m3: "for_each (compare_body ar (assign_pos_key idf) (assign_pos_key pdf)) (iter (?KI \<inter> ?KP)) (m1 @ m2)
           = Inr ((m1 @ m2) @ m3)" and
    r: "reconcile_positions ar iter idf pdf = (assign_pos_key idf, assign_pos_key pdf, Inr (m1 @ m2 @ m3))"
    by blast
  have n0: "numbered []" by (simp add: numbered_def)
  have n1: "numbered ([] @ m1)"
  proof (rule for_each_invariant [where Inv = numbered, OF _ n0 m1])
    fix k bs bs'
    assume "numbered bs" and "missing_in_target_body (assign_pos_key idf) k bs = Inr bs'"
    then show "numbered bs'" by (rule missing_in_target_body_numbered)
  qed
  then have n1': "numbered m1" by simp
  have n2: "numbered (m1 @ m2)"
  proof (rule for_each_invariant [where Inv = numbered, OF _ n1' m2])
    fix k bs bs'
    assume "numbered bs" and "missing_in_source_body ar (assign_pos_key pdf) k bs = Inr bs'"
    then show "numbered bs'" by (rule missing_in_source_body_numbered)
  qed
  have n3: "numbered ((m1 @ m2) @ m3)"
  proof (rule for_each_invariant [where Inv = numbered, OF _ n2 m3])
    fix k bs bs'
    assume "numbered bs"
      and "compare_body ar (assign_pos_key idf) (assign_pos_key pdf) k bs = Inr bs'"
    then show "numbered bs'" by (rule compare_body_numbered)
  qed
  then have "numbered (m1 @ m2 @ m3)" by simp
  with r show ?thesis by blast
qed

lemma numbered_distinct: "numbered bs \<Longrightarrow> distinct (map break_id bs)"
proof -
  assume "numbered bs"
  then have "map break_id bs = map format_break_id [1..<length bs + 1]" by (simp add: numbered_def)
  moreover have "distinct (map format_break_id [1..<length bs + 1])"
    by (rule distinct_map [THEN iffD2]) (auto intro: inj_onI dest: format_break_id_inj)
  ultimately show ?thesis by simp
qed

lemma numbered_last:
  assumes "numbered bs" and "bs \<noteq> []"
  shows "break_id (last bs) = format_break_id (length bs)"
proof -
  from assms(2) obtain xs x where bs: "bs = xs @ [x]" by (metis rev_exhaust)
  from assms(1) have "map break_id (xs @ [x]) = map format_break_id [1..<length xs + 2]"
    by (simp add: numbered_def bs)
  then have "break_id x = format_break_id (length xs + 1)" by simp
  then show ?thesis by (simp add: bs)
qed

lemma for_each_length:
  assumes "\<forall>k\<in>set keys. \<forall>bs. \<exists>b. body k bs = Inr (bs @ [b])"
    and "for_each body keys bs = Inr bs'"
  shows "length bs' = length bs + length keys"
  using assms
proof (induction keys arbitrary: bs)
  case Nil
  then show ?case by simp
next
  case (Cons k keys)
  from Cons.prems(1) have "\<exists>b. body k bs = Inr (bs @ [b])" by simp
  then obtain b where b: "body k bs = Inr (bs @ [b])" by blast
  with Cons.prems(2) have r: "for_each body keys (bs @ [b]) = Inr bs'" by simp
  have "\<forall>k\<in>set keys. \<forall>bs. \<exists>b. body k bs = Inr (bs @ [b])" using Cons.prems(1) by simp
  from Cons.IH [OF this r] show ?case by simp
qed

lemma source_only_count:
  assumes "set_iteration iter" and "distinct (map make_pos_key (rows idf))"
    and "set (map make_pos_key (rows idf)) \<inter> set (map make_pos_key (rows pdf)) = {}"
  shows "\<exists>bs. reconcile_positions ar iter idf pdf = (assign_pos_key idf, assign_pos_key pdf, Inr bs) \<and>
              length (rows idf) \<le> length bs \<and> numbered bs"
proof -
  let ?KI = "set (map make_pos_key (rows idf))" and ?KP = "set (map make_pos_key (rows pdf))"
  from reconcile_numbered [OF assms(1), where idf = idf and pdf = pdf and ar = ar] obtain bs where
    r: "reconcile_positions ar iter idf pdf = (assign_pos_key idf, assign_pos_key pdf, Inr bs)"
    and n: "numbered bs" by blast
  from reconcile_structure [OF assms(1), where idf = idf and pdf = pdf and ar = ar] obtain m1 m2 m3 where
    m1: "for_each (missing_in_target_body (assign_pos_key idf)) (iter (?KI - ?KP)) [] = Inr ([] @ m1)" and
    r': "reconcile_positions ar iter idf pdf = (assign_pos_key idf, assign_pos_key pdf, Inr (m1 @ m2 @ m3))"
    by blast
  have bs: "bs = m1 @ m2 @ m3" using r r' by simp
  have kd: "?KI - ?KP = ?KI" using assms(3) by blast
  have s1: "set (iter ?KI) = ?KI" and d1: "distinct (iter ?KI)"
    using assms(1) by (simp_all add: set_iteration_def)
  have step: "\<forall>k\<in>set (iter ?KI). \<forall>bs. \<exists>b. missing_in_target_body (assign_pos_key idf) k bs = Inr (bs @ [b])"
  proof (intro ballI allI)
    fix k bs assume "k \<in> set (iter ?KI)"
    then have "k \<in> ?KI" using s1 by simp
    from find_key_present [OF this] obtain pos where
      f: "find (\<lambda>p. make_pos_key p = k) (rows idf) = Some pos" by blast
    show "\<exists>b. missing_in_target_body (assign_pos_key idf) k bs = Inr (bs @ [b])"
      unfolding missing_in_target_body_result [OF f] by blast
  qed
  have "for_each (missing_in_target_body (assign_pos_key idf)) (iter ?KI) [] = Inr m1"
    using m1 unfolding kd by simp
  from for_each_length [OF step this] have "length m1 = length (iter ?KI)" by simp
  also have "\<dots> = card ?KI" using s1 d1 by (metis distinct_card)
  also have "\<dots> = length (rows idf)" using assms(2) by (metis distinct_card length_map)
  finally have "length (rows idf) \<le> length bs" using bs by simp
  with r n show ?thesis by blast
qed

lemma numbered_nth:
  assumes "numbered bs" and "i < length bs"
  shows "break_id (bs ! i) = format_break_id (i + 1)"
proof -
  from assms(1) have "map break_id bs ! i = map format_break_id [1..<length bs + 1] ! i"
    by (simp only: numbered_def)
  moreover have "map break_id bs ! i = break_id (bs ! i)" using assms(2) by simp
  moreover have "map format_break_id [1..<length bs + 1] ! i = format_break_id (1 + i)"
    using assms(2) by (simp del: upt_Suc)
  ultimately show ?thesis by simp
qed

lemma make_pos_key_numbered_position:
  "make_pos_key (numbered_position n) = ''S'' @ decimal n @ ''|ACC''"
  by (simp add: numbered_position_def position_def make_pos_key_def)

lemma distinct_numbered_positions:
  "distinct (map make_pos_key (map numbered_position [0..<n]))"
proof -
  have "inj_on (\<lambda>i. make_pos_key (numbered_position i)) (set [0..<n])"
    by (rule inj_onI) (auto simp: make_pos_key_numbered_position dest: decimal_inj)
  then have "distinct (map (\<lambda>i. make_pos_key (numbered_position i)) [0..<n])"
    by (simp add: distinct_map)
  then show ?thesis by (simp add: comp_def)
qed

lemma format_break_id_10000: "format_break_id 10000 = ''BRK-10000''"
  by (simp add: format_break_id_def format_04d_def decimal.simps digit_char_def char_of_def bit_0)

section \<open>The severity classifier\<close>

text \<open>
  C1.  The classifier is a total function of its two arguments: it returns CRITICAL
  exactly when the absolute variance exceeds 100000 or the absolute percentage exceeds
  10; otherwise HIGH exactly when one of 50000 and 5 is exceeded; otherwise MEDIUM
  exactly when one of 10000 and 2 is exceeded; otherwise LOW.  One condition of a tier
  is enough, and no input leads to an error: the result is always one of the four tiers.
\<close>

theorem calculate_severity_tiers:
  "(calculate_severity v p = CRITICAL \<longleftrightarrow> \<bar>v\<bar> > 100000 \<or> \<bar>p\<bar> > 10) \<and>
   (calculate_severity v p = HIGH \<longleftrightarrow>
      \<not> (\<bar>v\<bar> > 100000 \<or> \<bar>p\<bar> > 10) \<and> (\<bar>v\<bar> > 50000 \<or> \<bar>p\<bar> > 5)) \<and>
   (calculate_severity v p = MEDIUM \<longleftrightarrow>
      \<not> (\<bar>v\<bar> > 100000 \<or> \<bar>p\<bar> > 10) \<and> \<not> (\<bar>v\<bar> > 50000 \<or> \<bar>p\<bar> > 5) \<and>
      (\<bar>v\<bar> > 10000 \<or> \<bar>p\<bar> > 2)) \<and>
   (calculate_severity v p = LOW \<longleftrightarrow>
      \<not> (\<bar>v\<bar> > 100000 \<or> \<bar>p\<bar> > 10) \<and> \<not> (\<bar>v\<bar> > 50000 \<or> \<bar>p\<bar> > 5) \<and>
      \<not> (\<bar>v\<bar> > 10000 \<or> \<bar>p\<bar> > 2))"
  unfolding calculate_severity_def Let_def by simp

text \<open>
  C6.  The classifier is monotonic: a larger absolute variance at the same percentage,
  or a larger absolute percentage at the same variance, never gives a less severe tier
  (in \<open>severity_order\<close> the most severe tier has the smallest rank).
\<close>

theorem calculate_severity_monotone:
  "(\<bar>v\<bar> \<le> \<bar>v'\<bar> \<longrightarrow>
      severity_order (calculate_severity v' p) \<le> severity_order (calculate_severity v p)) \<and>
   (\<bar>p\<bar> \<le> \<bar>p'\<bar> \<longrightarrow>
      severity_order (calculate_severity v p') \<le> severity_order (calculate_severity v p))"
  unfolding calculate_severity_def Let_def by auto

theorem calculate_severity_monotone_witness:
  "\<bar>20000::real\<bar> \<le> \<bar>- 60000\<bar> \<and> \<bar>1::real\<bar> \<le> \<bar>- 7\<bar> \<and>
   severity_order (calculate_severity (- 60000) 1) \<le> severity_order (calculate_severity 20000 1) \<and>
   severity_order (calculate_severity 20000 (- 7)) \<le> severity_order (calculate_severity 20000 1) \<and>
   calculate_severity (- 60000) 1 = HIGH \<and> calculate_severity 20000 1 = MEDIUM \<and>
   calculate_severity 20000 (- 7) = HIGH"
  using calculate_severity_monotone [of 20000 "- 60000" 1 "- 7"]
  by (simp add: calculate_severity_def)

section \<open>The reconciliation\<close>

text \<open>
  Throughout, a position key is the string \<^verbatim>\<open>symbol|account_id\<close> that the program
  builds, the position of a key in a frame is the first row with that key (the row that
  \<open>select_first\<close> returns), and the breaks of a key are the entries of the returned list
  whose symbol and account give that key.  The statements hold for every order in which
  the key sets are iterated and for every arithmetic \<open>ar\<close>, of which only C4 and C10
  assume something, and they say what; the numbers they speak of are the numbers that
  the program computes with that arithmetic.
\<close>

text \<open>
  C2.  A key \<open>k\<close> that only the source frame has, with position \<open>pos\<close>, has exactly
  one break in the returned list: a Missing in Target break whose source value is the
  market value of \<open>pos\<close>, whose target value is 0, whose variance is that market value
  and whose percentage is 100.0.  A key \<open>k'\<close> that only the target frame has, with
  position \<open>pos'\<close>, has exactly one break: a Missing in Source break with source value
  0, target value the market value of \<open>pos'\<close>, variance minus that market value (the
  unary minus of the program) and percentage -100.0.  In both the severity is that of
  the classifier at the percentage 100, which is CRITICAL whatever the amount.
\<close>

theorem missing_position_breaks:
  assumes "set_iteration iter"
  shows "\<exists>bs. snd (snd (reconcile_positions ar iter idf pdf)) = Inr bs \<and>
     (find (\<lambda>p. make_pos_key p = k) (rows idf) = Some pos \<and>
      k \<notin> set (map make_pos_key (rows pdf)) \<longrightarrow>
        (\<exists>n. filter (\<lambda>b. brk_key b = k) bs =
           [\<lparr>break_id = format_break_id n, break_type = ''Missing in Target'',
             severity = Severity_value (calculate_severity (val (market_value pos)) 100),
             brk_symbol = symbol pos, brk_account_id = account_id pos,
             internal_value = market_value pos, pb_value = IntNum 0,
             variance = market_value pos, variance_pct = FloatNum 100\<rparr>])) \<and>
     (find (\<lambda>p. make_pos_key p = k') (rows pdf) = Some pos' \<and>
      k' \<notin> set (map make_pos_key (rows idf)) \<longrightarrow>
        (\<exists>n. filter (\<lambda>b. brk_key b = k') bs =
           [\<lparr>break_id = format_break_id n, break_type = ''Missing in Source'',
             severity = Severity_value (calculate_severity (val (market_value pos')) 100),
             brk_symbol = symbol pos', brk_account_id = account_id pos',
             internal_value = IntNum 0, pb_value = market_value pos',
             variance = op_neg ar (market_value pos'), variance_pct = FloatNum (- 100)\<rparr>])) \<and>
     Severity_value (calculate_severity v 100) = ''CRITICAL''"
proof -
  have crit: "Severity_value (calculate_severity x 100) = ''CRITICAL''" for x
    by (simp add: calculate_severity_def)
  from reconcile_structure [OF assms, where idf = idf and pdf = pdf and ar = ar]
  obtain bs where
    r: "reconcile_positions ar iter idf pdf = (assign_pos_key idf, assign_pos_key pdf, Inr bs)"
    by blast
  have a: "\<exists>n. filter (\<lambda>b. brk_key b = k) bs =
           [\<lparr>break_id = format_break_id n, break_type = ''Missing in Target'',
             severity = Severity_value (calculate_severity (val (market_value pos)) 100),
             brk_symbol = symbol pos, brk_account_id = account_id pos,
             internal_value = market_value pos, pb_value = IntNum 0,
             variance = market_value pos, variance_pct = FloatNum 100\<rparr>]"
    if "find (\<lambda>p. make_pos_key p = k) (rows idf) = Some pos"
      and "k \<notin> set (map make_pos_key (rows pdf))"
    using missing_target_key [OF assms that, where ar = ar] r unfolding crit by auto
  have b: "\<exists>n. filter (\<lambda>b. brk_key b = k') bs =
           [\<lparr>break_id = format_break_id n, break_type = ''Missing in Source'',
             severity = Severity_value (calculate_severity (val (market_value pos')) 100),
             brk_symbol = symbol pos', brk_account_id = account_id pos',
             internal_value = IntNum 0, pb_value = market_value pos',
             variance = op_neg ar (market_value pos'), variance_pct = FloatNum (- 100)\<rparr>]"
    if "find (\<lambda>p. make_pos_key p = k') (rows pdf) = Some pos'"
      and "k' \<notin> set (map make_pos_key (rows idf))"
    using missing_source_key [OF assms that, where ar = ar] r unfolding crit by auto
  have "snd (snd (reconcile_positions ar iter idf pdf)) = Inr bs" using r by simp
  with a b crit show ?thesis by blast
qed

theorem missing_position_breaks_witness:
  "\<exists>bs. snd (snd (reconcile_positions exact_arith sorted_list_of_set
            (data_frame [position ''XYZ'' ''ACC'' (IntNum 10) (FloatNum 50) (FloatNum 500)])
            (data_frame [position ''NFLX'' ''HEDGE_FUND_01'' (IntNum 2500) (FloatNum 625)
                           (FloatNum 1562500)]))) = Inr bs \<and>
     (\<exists>n. filter (\<lambda>b. brk_key b = ''XYZ|ACC'') bs =
        [\<lparr>break_id = format_break_id n, break_type = ''Missing in Target'',
          severity = ''CRITICAL'', brk_symbol = ''XYZ'', brk_account_id = ''ACC'',
          internal_value = FloatNum 500, pb_value = IntNum 0,
          variance = FloatNum 500, variance_pct = FloatNum 100\<rparr>]) \<and>
     (\<exists>n. filter (\<lambda>b. brk_key b = ''NFLX|HEDGE_FUND_01'') bs =
        [\<lparr>break_id = format_break_id n, break_type = ''Missing in Source'',
          severity = ''CRITICAL'', brk_symbol = ''NFLX'', brk_account_id = ''HEDGE_FUND_01'',
          internal_value = IntNum 0, pb_value = FloatNum 1562500,
          variance = FloatNum (- 1562500), variance_pct = FloatNum (- 100)\<rparr>])"
  using missing_position_breaks [OF set_iteration_sorted_list_of_set,
      where ar = exact_arith and k = "''XYZ|ACC''" and k' = "''NFLX|HEDGE_FUND_01''"
        and idf = "data_frame [position ''XYZ'' ''ACC'' (IntNum 10) (FloatNum 50) (FloatNum 500)]"
        and pos = "position ''XYZ'' ''ACC'' (IntNum 10) (FloatNum 50) (FloatNum 500)"
        and pdf = "data_frame [position ''NFLX'' ''HEDGE_FUND_01'' (IntNum 2500) (FloatNum 625)
                           (FloatNum 1562500)]"
        and pos' = "position ''NFLX'' ''HEDGE_FUND_01'' (IntNum 2500) (FloatNum 625)
                           (FloatNum 1562500)"
        and v = 500]
  by (simp add: data_frame_def position_def make_pos_key_def calculate_severity_def)



text \<open>
  C4.  With an arithmetic that is exact at zero: if a key is present in both frames and
  its two positions have the same quantity, the same price and the same market value,
  the returned list holds no break for that key; and reconciling a frame with itself
  returns the empty list.
\<close>

theorem identical_positions_no_break:
  assumes "set_iteration iter" and "zero_exact ar"
  shows "(\<exists>bs. snd (snd (reconcile_positions ar iter idf pdf)) = Inr bs \<and>
            (find (\<lambda>p. make_pos_key p = k) (rows idf) = Some s \<and>
             find (\<lambda>p. make_pos_key p = k) (rows pdf) = Some t \<and>
             quantity s = quantity t \<and> price s = price t \<and> market_value s = market_value t
             \<longrightarrow> filter (\<lambda>b. brk_key b = k) bs = [])) \<and>
         snd (snd (reconcile_positions ar iter df df)) = Inr []"
proof -
  from reconcile_structure [OF assms(1), where idf = idf and pdf = pdf and ar = ar] obtain bs where
    r: "reconcile_positions ar iter idf pdf = (assign_pos_key idf, assign_pos_key pdf, Inr bs)"
    by blast
  have "filter (\<lambda>b. brk_key b = k) bs = []"
    if "find (\<lambda>p. make_pos_key p = k) (rows idf) = Some s"
      and "find (\<lambda>p. make_pos_key p = k) (rows pdf) = Some t"
      and "quantity s = quantity t" and "price s = price t" and "market_value s = market_value t"
    using identical_key_quiet [OF assms that] r by auto
  moreover have "snd (snd (reconcile_positions ar iter df df)) = Inr []"
    using same_frame_quiet [OF assms, of df] by simp
  ultimately show ?thesis using r by auto
qed

theorem identical_positions_no_break_witness:
  "(\<exists>bs. snd (snd (reconcile_positions exact_arith sorted_list_of_set
              (data_frame [position ''AAPL'' ''HEDGE_FUND_01'' (IntNum 100) (FloatNum 178.5) (FloatNum 17850),
                           position ''MSFT'' ''HEDGE_FUND_01'' (IntNum 10) (FloatNum 64) (FloatNum 640)])
              (data_frame [position ''AAPL'' ''HEDGE_FUND_01'' (IntNum 100) (FloatNum 178.5) (FloatNum 17850)])))
            = Inr bs \<and>
         filter (\<lambda>b. brk_key b = ''AAPL|HEDGE_FUND_01'') bs = []) \<and>
   snd (snd (reconcile_positions exact_arith sorted_list_of_set
              (data_frame [position ''AAPL'' ''HEDGE_FUND_01'' (IntNum 100) (FloatNum 178.5) (FloatNum 17850)])
              (data_frame [position ''AAPL'' ''HEDGE_FUND_01'' (IntNum 100) (FloatNum 178.5) (FloatNum 17850)])))
     = Inr []"
  using identical_positions_no_break [OF set_iteration_sorted_list_of_set zero_exact_exact_arith,
      where idf = "data_frame [position ''AAPL'' ''HEDGE_FUND_01'' (IntNum 100) (FloatNum 178.5) (FloatNum 17850),
                      position ''MSFT'' ''HEDGE_FUND_01'' (IntNum 10) (FloatNum 64) (FloatNum 640)]"
        and pdf = "data_frame [position ''AAPL'' ''HEDGE_FUND_01'' (IntNum 100) (FloatNum 178.5) (FloatNum 17850)]"
        and k = "''AAPL|HEDGE_FUND_01''"
        and s = "position ''AAPL'' ''HEDGE_FUND_01'' (IntNum 100) (FloatNum 178.5) (FloatNum 17850)"
        and t = "position ''AAPL'' ''HEDGE_FUND_01'' (IntNum 100) (FloatNum 178.5) (FloatNum 17850)"
        and df = "data_frame [position ''AAPL'' ''HEDGE_FUND_01'' (IntNum 100) (FloatNum 178.5) (FloatNum 17850)]"]
  by (simp add: data_frame_def position_def make_pos_key_def)

text \<open>
  C5.  The identifiers of the returned list count up from 1 in the order of the list,
  which is the order in which the breaks were appended: the identifier at index \<open>i\<close>
  is the format of \<open>i + 1\<close>, without gaps, and no identifier occurs twice.  The
  format is \<^verbatim>\<open>BRK-\<close> followed by the decimal digits of the counter, filled with zeros on
  the left to a width of at least four: up to 9999 the identifier has four digits, and
  from 10000 on it has all the digits of the counter, which are more than four.
\<close>

theorem break_ids_sequential:
  assumes "set_iteration iter"
  shows "\<exists>bs. snd (snd (reconcile_positions ar iter idf pdf)) = Inr bs \<and>
     map break_id bs = map format_break_id [1..<length bs + 1] \<and>
     distinct (map break_id bs) \<and>
     format_break_id n = ''BRK-'' @ replicate (4 - length (decimal n)) CHR ''0'' @ decimal n \<and>
     decimal_value (drop 4 (format_break_id n)) = n \<and>
     (n < 10000 \<longrightarrow> length (format_break_id n) = 8) \<and>
     (10000 \<le> n \<longrightarrow> format_break_id n = ''BRK-'' @ decimal n \<and> length (format_break_id n) > 8)"
proof -
  from reconcile_numbered [OF assms, where idf = idf and pdf = pdf and ar = ar] obtain bs where
    r: "reconcile_positions ar iter idf pdf = (assign_pos_key idf, assign_pos_key pdf, Inr bs)"
    and nb: "numbered bs" by blast
  have a: "snd (snd (reconcile_positions ar iter idf pdf)) = Inr bs" using r by simp
  have b: "map break_id bs = map format_break_id [1..<length bs + 1]"
    using nb by (simp add: numbered_def)
  have c: "distinct (map break_id bs)" using nb by (rule numbered_distinct)
  have d: "format_break_id n = ''BRK-'' @ replicate (4 - length (decimal n)) CHR ''0'' @ decimal n"
    by (simp add: format_break_id_def format_04d_def)
  have e: "decimal_value (drop 4 (format_break_id n)) = n"
    by (simp add: format_break_id_def decimal_value_format_04d)
  have f: "length (format_break_id n) = 8" if "n < 10000"
  proof -
    from that have "length (decimal n) \<le> 4" by (simp only: length_decimal_4)
    then show ?thesis by (simp add: d)
  qed
  have g: "format_break_id n = ''BRK-'' @ decimal n \<and> length (format_break_id n) > 8"
    if "10000 \<le> n"
  proof -
    from that have "\<not> n < 10000" by simp
    then have "\<not> length (decimal n) \<le> 4" by (simp add: length_decimal_4)
    then show ?thesis by (simp add: d)
  qed
  from a b c d e f g show ?thesis by blast
qed

theorem break_ids_sequential_witness:
  "\<exists>bs. snd (snd (reconcile_positions exact_arith sorted_list_of_set
            (data_frame [position ''XYZ'' ''ACC'' (IntNum 10) (FloatNum 50) (FloatNum 500)])
            (data_frame [position ''NFLX'' ''HEDGE_FUND_01'' (IntNum 2500) (FloatNum 625)
                           (FloatNum 1562500)]))) = Inr bs \<and>
     map break_id bs = map format_break_id [1..<length bs + 1] \<and>
     distinct (map break_id bs) \<and>
     format_break_id 7 = ''BRK-0007'' \<and>
     decimal_value (drop 4 (format_break_id 7)) = 7 \<and>
     length (format_break_id 7) = 8"
proof -
  let ?idf = "data_frame [position ''XYZ'' ''ACC'' (IntNum 10) (FloatNum 50) (FloatNum 500)]"
  let ?pdf = "data_frame [position ''NFLX'' ''HEDGE_FUND_01'' (IntNum 2500) (FloatNum 625)
                           (FloatNum 1562500)]"
  have r3: "replicate 3 c = [c, c, c]" for c :: char
    by (simp add: numeral_3_eq_3)
  have f7: "format_break_id 7 = ''BRK-0007''"
    by (simp add: format_break_id_def format_04d_def decimal.simps digit_char_def char_of_def bit_0
        r3)
  from break_ids_sequential [OF set_iteration_sorted_list_of_set,
      where ar = exact_arith and n = 7 and idf = ?idf and pdf = ?pdf]
  obtain bs where
    a: "snd (snd (reconcile_positions exact_arith sorted_list_of_set ?idf ?pdf)) = Inr bs" and
    b: "map break_id bs = map format_break_id [1..<length bs + 1]" and
    c: "distinct (map break_id bs)" and
    e: "decimal_value (drop 4 (format_break_id 7)) = 7" and
    f: "(7::nat) < 10000 \<longrightarrow> length (format_break_id 7) = 8"
    by blast
  from f have "length (format_break_id 7) = 8" by simp
  with a b c e f7 show ?thesis by blast
qed

theorem break_id_five_digits:
  "10000 \<le> length (returned (reconcile_positions exact_arith sorted_list_of_set
       (data_frame (map numbered_position [0..<10000]))
       (data_frame [position ''T'' ''ACC'' (IntNum 1) (FloatNum 1) (FloatNum 1)]))) \<and>
   break_id (returned (reconcile_positions exact_arith sorted_list_of_set
       (data_frame (map numbered_position [0..<10000]))
       (data_frame [position ''T'' ''ACC'' (IntNum 1) (FloatNum 1) (FloatNum 1)])) ! 9999)
     = ''BRK-10000''"
proof -
  let ?idf = "data_frame (map numbered_position [0..<10000])"
  let ?pdf = "data_frame [position ''T'' ''ACC'' (IntNum 1) (FloatNum 1) (FloatNum 1)]"
  have d: "distinct (map make_pos_key (rows ?idf))"
    using distinct_numbered_positions [of 10000] by (simp add: data_frame_def)
  have e: "set (map make_pos_key (rows ?idf)) \<inter> set (map make_pos_key (rows ?pdf)) = {}"
    by (auto simp: data_frame_def make_pos_key_numbered_position)
       (simp add: position_def make_pos_key_def)
  from source_only_count [OF set_iteration_sorted_list_of_set d e, where ar = exact_arith]
  obtain bs where
    r: "reconcile_positions exact_arith sorted_list_of_set ?idf ?pdf
          = (assign_pos_key ?idf, assign_pos_key ?pdf, Inr bs)"
    and l: "length (rows ?idf) \<le> length bs" and nb: "numbered bs" by blast
  have ret: "returned (reconcile_positions exact_arith sorted_list_of_set ?idf ?pdf) = bs"
    unfolding r by (simp add: returned_def)
  have len: "10000 \<le> length bs" using l by (simp add: data_frame_def)
  then have "9999 < length bs" by simp
  from numbered_nth [OF nb this] have "break_id (bs ! 9999) = format_break_id 10000"
    by simp
  then have "break_id (bs ! 9999) = ''BRK-10000''" by (simp only: format_break_id_10000)
  with len show ?thesis unfolding ret by simp
qed

text \<open>
  C7.  Where the denominator of a percentage is zero, the guarded computation returns
  the fixed value 0, whatever the division would do; the guarded computation and the
  three checks built on it always return a value; and no run of the reconciliation, on
  any two frames, raises a division error.
\<close>

theorem zero_denominator_guard:
  "(val d = 0 \<longrightarrow> guarded_pct ar var d = Inr (IntNum 0)) \<and>
   (\<exists>pct. guarded_pct ar var d = Inr pct) \<and>
   (\<exists>bs. check_quantity ar s t breaks = Inr bs) \<and>
   (\<exists>bs. check_price ar s t breaks = Inr bs) \<and>
   (\<exists>bs. check_market_value ar s t breaks = Inr bs) \<and>
   snd (snd (reconcile_positions ar iter idf pdf)) \<noteq> Inl ZeroDivisionError"
proof -
  have "val d = 0 \<longrightarrow> guarded_pct ar var d = Inr (IntNum 0)"
    by (simp add: guarded_pct_def)
  moreover have "\<exists>pct. guarded_pct ar var d = Inr pct"
    by (simp add: guarded_pct_value)
  moreover have "\<exists>bs. check_quantity ar s t breaks = Inr bs"
    by (simp add: check_quantity_result)
  moreover have "\<exists>bs. check_price ar s t breaks = Inr bs"
    by (simp add: check_price_result)
  moreover have "\<exists>bs. check_market_value ar s t breaks = Inr bs"
    by (simp add: check_market_value_result)
  moreover have "snd (snd (reconcile_positions ar iter idf pdf)) \<noteq> Inl ZeroDivisionError"
    by (rule reconcile_no_zero_division)
  ultimately show ?thesis by blast
qed

theorem zero_denominator_guard_witness:
  "val (IntNum 0) = 0 \<and>
   guarded_pct exact_arith (IntNum 5) (IntNum 0) = Inr (IntNum 0) \<and>
   check_quantity exact_arith
     (position ''XYZ'' ''ACC'' (IntNum 0) (FloatNum 0) (FloatNum 0))
     (position ''XYZ'' ''ACC'' (IntNum 8) (FloatNum 2) (FloatNum 16)) [] = Inr [] \<and>
   check_price exact_arith
     (position ''XYZ'' ''ACC'' (IntNum 0) (FloatNum 0) (FloatNum 0))
     (position ''XYZ'' ''ACC'' (IntNum 8) (FloatNum 2) (FloatNum 16)) [] = Inr [] \<and>
   check_market_value exact_arith
     (position ''XYZ'' ''ACC'' (IntNum 0) (FloatNum 0) (FloatNum 0))
     (position ''XYZ'' ''ACC'' (IntNum 8) (FloatNum 2) (FloatNum 16)) [] = Inr [] \<and>
   snd (snd (reconcile_positions exact_arith sorted_list_of_set
     (data_frame [position ''XYZ'' ''ACC'' (IntNum 0) (FloatNum 0) (FloatNum 0)])
     (data_frame [position ''XYZ'' ''ACC'' (IntNum 8) (FloatNum 2) (FloatNum 16)])))
     \<noteq> Inl ZeroDivisionError"
  using zero_denominator_guard [where ar = exact_arith and d = "IntNum 0" and var = "IntNum 5"
      and s = "position ''XYZ'' ''ACC'' (IntNum 0) (FloatNum 0) (FloatNum 0)"
      and t = "position ''XYZ'' ''ACC'' (IntNum 8) (FloatNum 2) (FloatNum 16)"
      and breaks = "[]" and iter = sorted_list_of_set
      and idf = "data_frame [position ''XYZ'' ''ACC'' (IntNum 0) (FloatNum 0) (FloatNum 0)]"
      and pdf = "data_frame [position ''XYZ'' ''ACC'' (IntNum 8) (FloatNum 2) (FloatNum 16)]"]
  by (simp add: position_def check_quantity_result check_price_result check_market_value_result)

text \<open>
  C8.  A frame in which a key occurs in more than one row does not make the
  reconciliation fail: the run returns a list of breaks, and it is the list that the run
  returns, with the same order of iteration, on the frames reduced to the first row of
  every key.  The later rows of a key are never read.
\<close>

theorem duplicate_keys_first_row:
  assumes "set_iteration iter"
  shows "(\<exists>bs. snd (snd (reconcile_positions ar iter idf pdf)) = Inr bs) \<and>
     snd (snd (reconcile_positions ar iter idf pdf))
       = snd (snd (reconcile_positions ar iter
           (idf\<lparr>rows := first_rows (rows idf)\<rparr>) (pdf\<lparr>rows := first_rows (rows pdf)\<rparr>)))"
proof -
  from reconcile_structure [OF assms, where idf = idf and pdf = pdf and ar = ar] obtain bs where
    "reconcile_positions ar iter idf pdf = (assign_pos_key idf, assign_pos_key pdf, Inr bs)"
    by blast
  then have "snd (snd (reconcile_positions ar iter idf pdf)) = Inr bs" by simp
  then show ?thesis using reconcile_first_rows [of ar iter idf pdf] by simp
qed

theorem duplicate_keys_first_row_witness:
  "(\<exists>bs. snd (snd (reconcile_positions exact_arith sorted_list_of_set
       (data_frame [position ''XYZ'' ''ACC'' (IntNum 1) (FloatNum 64) (FloatNum 64),
                    position ''XYZ'' ''ACC'' (IntNum 2) (FloatNum 32) (FloatNum 64)])
       (data_frame [position ''XYZ'' ''ACC'' (IntNum 1) (FloatNum 64) (FloatNum 64)]))) = Inr bs) \<and>
   snd (snd (reconcile_positions exact_arith sorted_list_of_set
       (data_frame [position ''XYZ'' ''ACC'' (IntNum 1) (FloatNum 64) (FloatNum 64),
                    position ''XYZ'' ''ACC'' (IntNum 2) (FloatNum 32) (FloatNum 64)])
       (data_frame [position ''XYZ'' ''ACC'' (IntNum 1) (FloatNum 64) (FloatNum 64)])))
   = snd (snd (reconcile_positions exact_arith sorted_list_of_set
       (data_frame [position ''XYZ'' ''ACC'' (IntNum 1) (FloatNum 64) (FloatNum 64)])
       (data_frame [position ''XYZ'' ''ACC'' (IntNum 1) (FloatNum 64) (FloatNum 64)])))"
proof -
  let ?a = "position ''XYZ'' ''ACC'' (IntNum 1) (FloatNum 64) (FloatNum 64)"
  let ?b = "position ''XYZ'' ''ACC'' (IntNum 2) (FloatNum 32) (FloatNum 64)"
  have f: "(data_frame [?a, ?b])\<lparr>rows := first_rows (rows (data_frame [?a, ?b]))\<rparr> = data_frame [?a]"
    by (simp add: data_frame_def position_def make_pos_key_def)
  have g: "(data_frame [?a])\<lparr>rows := first_rows (rows (data_frame [?a]))\<rparr> = data_frame [?a]"
    by (simp add: data_frame_def)
  from duplicate_keys_first_row [OF set_iteration_sorted_list_of_set,
      where ar = exact_arith and idf = "data_frame [?a, ?b]" and pdf = "data_frame [?a]"]
  show ?thesis unfolding f g .
qed

theorem duplicate_keys_no_error:
  "snd (snd (reconcile_positions exact_arith sorted_list_of_set
       (data_frame [position ''XYZ'' ''ACC'' (IntNum 1) (FloatNum 64) (FloatNum 64),
                    position ''XYZ'' ''ACC'' (IntNum 2) (FloatNum 32) (FloatNum 64)])
       (data_frame [position ''XYZ'' ''ACC'' (IntNum 1) (FloatNum 64) (FloatNum 64)]))) = Inr []"
proof -
  let ?a = "position ''XYZ'' ''ACC'' (IntNum 1) (FloatNum 64) (FloatNum 64)"
  let ?b = "position ''XYZ'' ''ACC'' (IntNum 2) (FloatNum 32) (FloatNum 64)"
  have f: "(data_frame [?a, ?b])\<lparr>rows := first_rows (rows (data_frame [?a, ?b]))\<rparr> = data_frame [?a]"
    by (simp add: data_frame_def position_def make_pos_key_def)
  have g: "(data_frame [?a])\<lparr>rows := first_rows (rows (data_frame [?a]))\<rparr> = data_frame [?a]"
    by (simp add: data_frame_def)
  have "snd (snd (reconcile_positions exact_arith sorted_list_of_set (data_frame [?a, ?b]) (data_frame [?a])))
      = snd (snd (reconcile_positions exact_arith sorted_list_of_set (data_frame [?a]) (data_frame [?a])))"
    using reconcile_first_rows [of exact_arith sorted_list_of_set "data_frame [?a, ?b]" "data_frame [?a]"]
    unfolding f g by simp
  also have "\<dots> = Inr []"
    using same_frame_quiet [OF set_iteration_sorted_list_of_set zero_exact_exact_arith,
        of "data_frame [?a]"] by simp
  finally show ?thesis .
qed

text \<open>
  C9.  The two frames passed in do not come back unchanged: each comes back with its
  rows as they were and with the column \<^verbatim>\<open>pos_key\<close>, added to the frame or
  overwritten in it, that holds \<^verbatim>\<open>symbol|account_id\<close> of every row.
\<close>

theorem inputs_gain_pos_key:
  "fst (reconcile_positions ar iter idf pdf)
     = idf\<lparr>pos_key := Some (map make_pos_key (rows idf))\<rparr> \<and>
   fst (snd (reconcile_positions ar iter idf pdf))
     = pdf\<lparr>pos_key := Some (map make_pos_key (rows pdf))\<rparr> \<and>
   rows (fst (reconcile_positions ar iter idf pdf)) = rows idf \<and>
   rows (fst (snd (reconcile_positions ar iter idf pdf))) = rows pdf"
  by (simp add: reconcile_positions_def Let_def assign_pos_key_def)

theorem inputs_not_unchanged:
  "fst (reconcile_positions exact_arith sorted_list_of_set
       (data_frame [position ''XYZ'' ''ACC'' (IntNum 1) (FloatNum 64) (FloatNum 64)])
       (data_frame [position ''XYZ'' ''ACC'' (IntNum 1) (FloatNum 64) (FloatNum 64)]))
     \<noteq> data_frame [position ''XYZ'' ''ACC'' (IntNum 1) (FloatNum 64) (FloatNum 64)] \<and>
   fst (snd (reconcile_positions exact_arith sorted_list_of_set
       (data_frame [position ''XYZ'' ''ACC'' (IntNum 1) (FloatNum 64) (FloatNum 64)])
       (data_frame [position ''XYZ'' ''ACC'' (IntNum 1) (FloatNum 64) (FloatNum 64)])))
     \<noteq> data_frame [position ''XYZ'' ''ACC'' (IntNum 1) (FloatNum 64) (FloatNum 64)]"
  by (simp add: reconcile_positions_def Let_def assign_pos_key_def data_frame_def)

text \<open>
  C10.  For a key present in both frames, a zero on the source side silences the check
  of that field whatever the target holds, given that the absolute value of the literal
  0 is 0: no Quantity Mismatch break when the source quantity is 0, no Price Mismatch
  break when the source price is 0, and no Market Value Mismatch break when the source
  market value is 0.
\<close>

theorem zero_source_field_no_break:
  assumes "set_iteration iter"
    and "find (\<lambda>p. make_pos_key p = k) (rows idf) = Some s"
    and "find (\<lambda>p. make_pos_key p = k) (rows pdf) = Some t"
    and abs0: "val (op_abs ar (IntNum 0)) = 0"
  shows "\<exists>bs. snd (snd (reconcile_positions ar iter idf pdf)) = Inr bs \<and>
     (val (quantity s) = 0 \<longrightarrow>
        \<not> (\<exists>b\<in>set bs. brk_key b = k \<and> break_type b = ''Quantity Mismatch'')) \<and>
     (val (price s) = 0 \<longrightarrow>
        \<not> (\<exists>b\<in>set bs. brk_key b = k \<and> break_type b = ''Price Mismatch'')) \<and>
     (val (market_value s) = 0 \<longrightarrow>
        \<not> (\<exists>b\<in>set bs. brk_key b = k \<and> break_type b = ''Market Value Mismatch''))"
proof -
  from matched_key_breaks [OF assms(1-3), where ar = ar] obtain bs pre q p m where
    r: "reconcile_positions ar iter idf pdf = (assign_pos_key idf, assign_pos_key pdf, Inr bs)" and
    f: "filter (\<lambda>b. brk_key b = k) bs = q @ p @ m" and
    q: "check_quantity ar s t pre = Inr (pre @ q)" and
    p: "check_price ar s t (pre @ q) = Inr ((pre @ q) @ p)" and
    m: "check_market_value ar s t ((pre @ q) @ p) = Inr (((pre @ q) @ p) @ m)"
    by blast
  have mem: "b \<in> set bs \<and> brk_key b = k \<longleftrightarrow> b \<in> set (q @ p @ m)" for b
    using f by (metis (mono_tags, lifting) mem_Collect_eq set_filter)
  have tq: "\<forall>b\<in>set q. break_type b = ''Quantity Mismatch''"
    using check_quantity_shape [OF q] by simp
  have tp: "\<forall>b\<in>set p. break_type b = ''Price Mismatch''"
    using check_price_shape [OF p] by simp
  have tm: "\<forall>b\<in>set m. break_type b = ''Market Value Mismatch''"
    using check_market_value_shape [OF m] by simp
  have a: "\<not> (\<exists>b\<in>set bs. brk_key b = k \<and> break_type b = ''Quantity Mismatch'')"
    if z: "val (quantity s) = 0"
  proof -
    have "q = []" using check_quantity_shape [OF q] z abs0 by simp
    then have "\<forall>b\<in>set (q @ p @ m). break_type b \<noteq> ''Quantity Mismatch''"
      using tp tm by auto
    then show ?thesis using mem by blast
  qed
  have b: "\<not> (\<exists>b\<in>set bs. brk_key b = k \<and> break_type b = ''Price Mismatch'')"
    if z: "val (price s) = 0"
  proof -
    have "p = []" using check_price_shape [OF p] z abs0 by simp
    then have "\<forall>b\<in>set (q @ p @ m). break_type b \<noteq> ''Price Mismatch''"
      using tq tm by auto
    then show ?thesis using mem by blast
  qed
  have c: "\<not> (\<exists>b\<in>set bs. brk_key b = k \<and> break_type b = ''Market Value Mismatch'')"
    if z: "val (market_value s) = 0"
  proof -
    have "m = []" using check_market_value_shape [OF m] z abs0 by simp
    then have "\<forall>b\<in>set (q @ p @ m). break_type b \<noteq> ''Market Value Mismatch''"
      using tq tp by auto
    then show ?thesis using mem by blast
  qed
  have "snd (snd (reconcile_positions ar iter idf pdf)) = Inr bs" using r by simp
  with a b c show ?thesis by blast
qed

theorem zero_source_field_no_break_witness:
  "\<exists>bs. snd (snd (reconcile_positions exact_arith sorted_list_of_set
              (data_frame [position ''XYZ'' ''ACC'' (IntNum 0) (FloatNum 0) (FloatNum 0)])
              (data_frame [position ''XYZ'' ''ACC'' (IntNum 9400) (FloatNum 100) (FloatNum 940000)])))
          = Inr bs \<and>
     \<not> (\<exists>b\<in>set bs. brk_key b = ''XYZ|ACC'' \<and> break_type b = ''Quantity Mismatch'') \<and>
     \<not> (\<exists>b\<in>set bs. brk_key b = ''XYZ|ACC'' \<and> break_type b = ''Price Mismatch'') \<and>
     \<not> (\<exists>b\<in>set bs. brk_key b = ''XYZ|ACC'' \<and> break_type b = ''Market Value Mismatch'')"
  using zero_source_field_no_break [OF set_iteration_sorted_list_of_set,
      where ar = exact_arith and k = "''XYZ|ACC''"
        and idf = "data_frame [position ''XYZ'' ''ACC'' (IntNum 0) (FloatNum 0) (FloatNum 0)]"
        and s = "position ''XYZ'' ''ACC'' (IntNum 0) (FloatNum 0) (FloatNum 0)"
        and pdf = "data_frame [position ''XYZ'' ''ACC'' (IntNum 9400) (FloatNum 100) (FloatNum 940000)]"
        and t = "position ''XYZ'' ''ACC'' (IntNum 9400) (FloatNum 100) (FloatNum 940000)"]
  by (simp add: data_frame_def position_def make_pos_key_def)

end
